theory Spec2Isabelle
  imports Complex_Main
begin

section \<open>JavaScript values\<close>

text \<open>
  JavaScript numbers are modelled as real numbers: rounding, infinities and NaN are not
  modelled. A plain object is an association list from property names to values, in
  insertion order; a function value is an opaque reference.
\<close>

datatype jsval =
    Undefined
  | Null
  | Bool bool
  | Num real
  | Str string
  | Obj "(string \<times> jsval) list"
  | Arr "jsval list"
  | Fn nat

type_synonym jsobj = "(string \<times> jsval) list"

text \<open>
  The errors that are thrown, as values. \<open>NotAWindowConfig\<close> is not an error of
  JavaScript: it marks a configuration that is not a \<open>WindowConfig\<close>, where the model
  stops (see \<open>read_config\<close>).
\<close>

datatype js_error =
    TypeError string
  | NotFoundError string
  | HttpError string
  | NetworkError string
  | NotAWindowConfig

text \<open>\<open>ToBoolean\<close>: the operand test of \<open>||\<close>, \<open>!\<close> and \<open>if\<close>.\<close>

fun truthy :: "jsval \<Rightarrow> bool" where
  "truthy Undefined = False"
| "truthy Null = False"
| "truthy (Bool b) = b"
| "truthy (Num r) = (r \<noteq> 0)"
| "truthy (Str s) = (s \<noteq> [])"
| "truthy (Obj ps) = True"
| "truthy (Arr vs) = True"
| "truthy (Fn f) = True"

text \<open>\<open>a || b\<close> on values.\<close>

definition js_or :: "jsval \<Rightarrow> jsval \<Rightarrow> jsval" where
  "js_or a b = (if truthy a then a else b)"

text \<open>\<open>obj[key]\<close>: reading a property that is not there gives \<open>undefined\<close>.\<close>

definition get_prop :: "jsobj \<Rightarrow> string \<Rightarrow> jsval" where
  "get_prop obj key = (case map_of obj key of None \<Rightarrow> Undefined | Some v \<Rightarrow> v)"

text \<open>\<open>key in obj\<close> for own properties.\<close>

definition has_prop :: "jsobj \<Rightarrow> string \<Rightarrow> bool" where
  "has_prop obj key = (map_of obj key \<noteq> None)"

text \<open>
  A JavaScript \<open>Map\<close>, and the own properties of an object, keep insertion order:
  \<open>set\<close> on a key that is there replaces the value in place, on a new key it appends;
  \<open>delete\<close> removes the entry.
\<close>

definition Map_has :: "'k \<Rightarrow> ('k \<times> 'v) list \<Rightarrow> bool" where
  "Map_has k m = (map_of m k \<noteq> None)"

definition Map_get :: "'k \<Rightarrow> ('k \<times> 'v) list \<Rightarrow> 'v option" where
  "Map_get k m = map_of m k"

fun Map_set :: "'k \<Rightarrow> 'v \<Rightarrow> ('k \<times> 'v) list \<Rightarrow> ('k \<times> 'v) list" where
  "Map_set k v [] = [(k, v)]"
| "Map_set k v ((k', u) # ps) =
     (if k' = k then (k, v) # ps else (k', u) # Map_set k v ps)"

definition Map_delete :: "'k \<Rightarrow> ('k \<times> 'v) list \<Rightarrow> ('k \<times> 'v) list" where
  "Map_delete k m = filter (\<lambda>p. fst p \<noteq> k) m"

text \<open>\<open>obj[key] = v\<close>.\<close>

definition set_prop :: "jsobj \<Rightarrow> string \<Rightarrow> jsval \<Rightarrow> jsobj" where
  "set_prop obj key v = Map_set key v obj"

text \<open>
  JSON documents, and \<open>JSON.stringify\<close> as the document that the text it returns
  denotes: a property whose value is \<open>undefined\<close> or a function is left out, such an
  element of an array becomes \<open>null\<close>, and for \<open>undefined\<close> or a function itself there
  is no text (\<open>None\<close>).
\<close>

datatype json =
    JNull
  | JBool bool
  | JNum real
  | JStr string
  | JObj "(string \<times> json) list"
  | JArr "json list"

fun stringify :: "jsval \<Rightarrow> json option"
  and stringify_props :: "(string \<times> jsval) list \<Rightarrow> (string \<times> json) list"
  and stringify_elems :: "jsval list \<Rightarrow> json list" where
  "stringify Undefined = None"
| "stringify Null = Some JNull"
| "stringify (Bool b) = Some (JBool b)"
| "stringify (Num r) = Some (JNum r)"
| "stringify (Str s) = Some (JStr s)"
| "stringify (Obj ps) = Some (JObj (stringify_props ps))"
| "stringify (Arr vs) = Some (JArr (stringify_elems vs))"
| "stringify (Fn f) = None"
| "stringify_props [] = []"
| "stringify_props ((k, v) # ps) =
     (case stringify v of
        None \<Rightarrow> stringify_props ps
      | Some j \<Rightarrow> (k, j) # stringify_props ps)"
| "stringify_elems [] = []"
| "stringify_elems (v # vs) =
     (case stringify v of None \<Rightarrow> JNull | Some j \<Rightarrow> j) # stringify_elems vs"

section \<open>Window (window.js)\<close>

text \<open>
  The globals \<open>window.innerWidth\<close> and \<open>window.innerHeight\<close>, and the two fields of a
  mouse event that the window reads.
\<close>

record viewport =
  innerWidth :: real
  innerHeight :: real

record MouseEvent =
  clientX :: real
  clientY :: real

text \<open>
  The configuration object as the JSDoc typedef \<open>WindowConfig\<close> declares it (\<open>width\<close>,
  \<open>height\<close>, \<open>icon\<close>, \<open>title\<close>, \<open>content\<close>, optional \<open>styles\<close> and \<open>events\<close>), with
  the four further properties the constructor reads (\<open>x\<close>, \<open>y\<close>, \<open>zIndex\<close>,
  \<open>isMinimized\<close>). \<open>None\<close> is a property that is absent, \<open>undefined\<close> or \<open>null\<close>.
\<close>

record WindowConfig =
  c_width :: real
  c_height :: real
  c_icon :: "string option"
  c_title :: string
  c_content :: string
  c_styles :: "jsobj option"
  c_events :: "jsobj option"
  c_x :: "real option"
  c_y :: "real option"
  c_zIndex :: "real option"
  c_isMinimized :: "bool option"

text \<open>
  The state of one window object. \<open>oid\<close> stands for the identity of the JavaScript
  object (what \<open>indexOf\<close> compares, and what owns the DOM element), \<open>className\<close> for
  \<open>constructor.name\<close>, and \<open>config_w\<close> for the private field \<open>#config\<close>. The DOM element
  is not modelled: its style properties are written from the fields below and never read.
  \<open>initialWidth\<close>, \<open>initialHeight\<close>, \<open>resizeDirX\<close> and \<open>resizeDirY\<close> are not assigned
  by the constructor; they are read only by \<open>resize\<close> under \<open>isResizing\<close>, which only
  \<open>startResize\<close> sets, after assigning all four.
\<close>

record Window =
  oid :: nat
  className :: string
  config_w :: WindowConfig
  id_w :: string
  width :: real
  height :: real
  title :: string
  content :: string
  zIndex :: real
  isMinimized :: bool
  icon :: "string option"
  isDragging :: bool
  isResizing :: bool
  initialX :: real
  initialY :: real
  initialMouseX :: real
  initialMouseY :: real
  x_w :: real
  y_w :: real
  initialWidth :: real
  initialHeight :: real
  resizeDirX :: real
  resizeDirY :: real

text \<open>
  The two placement expressions of the constructor, evaluated when \<open>config.x\<close>
  (\<open>config.y\<close>) is falsy; \<open>r\<close> is the value of \<open>Math.random()\<close>.
\<close>

definition placeX :: "viewport \<Rightarrow> real \<Rightarrow> real \<Rightarrow> real" where
  "placeX vp r w = min (max 0 (r * (innerWidth vp - w - 100))) (innerWidth vp - w)"

definition placeY :: "viewport \<Rightarrow> real \<Rightarrow> real \<Rightarrow> real" where
  "placeY vp r h = min (max 100 (r * (innerHeight vp - h) - 100)) (innerHeight vp - h)"

text \<open>\<open>v || d\<close> for an optional number and for an optional string.\<close>

definition num_or :: "real option \<Rightarrow> real \<Rightarrow> real" where
  "num_or v d = (case v of None \<Rightarrow> d | Some r \<Rightarrow> if r \<noteq> 0 then r else d)"

definition str_or_null :: "string option \<Rightarrow> string option" where
  "str_or_null v = (case v of None \<Rightarrow> None | Some s \<Rightarrow> if s \<noteq> [] then Some s else None)"

text \<open>
  \<open>new Window(Id, config)\<close>, with \<open>ident\<close> for \<open>Id\<close>, for the object identity \<open>oi\<close>
  and the class name \<open>cls\<close>, in the viewport \<open>vp\<close> with \<open>rx\<close>, \<open>ry\<close> the two values of \<open>Math.random()\<close>.
  \<open>#createElement\<close> reads \<open>this.#config.styles.titlebar_fontsize\<close>, which throws a
  TypeError when \<open>styles\<close> is missing. \<open>if (this.isMinimized) this.minimize()\<close> leaves
  the flag as it is.
\<close>

definition Window_new ::
  "viewport \<Rightarrow> real \<Rightarrow> real \<Rightarrow> nat \<Rightarrow> string \<Rightarrow> string \<Rightarrow> WindowConfig \<Rightarrow> js_error + Window" where
  "Window_new vp rx ry oi cls ident c =
     (case c_styles c of
        None \<Rightarrow> Inl (TypeError ''Cannot read properties of undefined (reading titlebar_fontsize)'')
      | Some st \<Rightarrow>
          Inr \<lparr> oid = oi, className = cls, config_w = c, id_w = ident,
                width = c_width c, height = c_height c,
                title = c_title c, content = c_content c,
                zIndex = num_or (c_zIndex c) 1,
                isMinimized = (case c_isMinimized c of None \<Rightarrow> False | Some b \<Rightarrow> b),
                icon = str_or_null (c_icon c),
                isDragging = False, isResizing = False,
                initialX = 0, initialY = 0, initialMouseX = 0, initialMouseY = 0,
                x_w = num_or (c_x c) (placeX vp rx (c_width c)),
                y_w = num_or (c_y c) (placeY vp ry (c_height c)),
                initialWidth = 0, initialHeight = 0, resizeDirX = 0, resizeDirY = 0 \<rparr>)"

definition handleResize :: "viewport \<Rightarrow> Window \<Rightarrow> Window" where
  "handleResize vp w =
     (let maxX = max 0 (innerWidth vp - width w);
          maxY = max 0 (innerHeight vp - height w)
      in w\<lparr> x_w := min (x_w w) maxX, y_w := min (y_w w) maxY \<rparr>)"

definition startDrag :: "MouseEvent \<Rightarrow> Window \<Rightarrow> Window" where
  "startDrag event w =
     w\<lparr> isDragging := True, initialX := x_w w, initialY := y_w w,
        initialMouseX := clientX event, initialMouseY := clientY event \<rparr>"

definition drag :: "viewport \<Rightarrow> MouseEvent \<Rightarrow> Window \<Rightarrow> Window" where
  "drag vp event w =
     (if \<not> isDragging w then w
      else
        let deltaX = clientX event - initialMouseX w;
            deltaY = clientY event - initialMouseY w;
            newX = initialX w + deltaX;
            newY = initialY w + deltaY;
            newX = max 0 (min newX (innerWidth vp - width w));
            newY = max 0 (min newY (innerHeight vp - height w))
        in w\<lparr> x_w := newX, y_w := newY \<rparr>)"


definition minimize :: "Window \<Rightarrow> Window" where
  "minimize w = w\<lparr> isMinimized := True \<rparr>"

definition restore :: "Window \<Rightarrow> Window" where
  "restore w = w\<lparr> isMinimized := False \<rparr>"

definition toggleMinimize :: "Window \<Rightarrow> Window" where
  "toggleMinimize w = (if isMinimized w then restore w else minimize w)"

definition setZIndex :: "real \<Rightarrow> Window \<Rightarrow> Window" where
  "setZIndex index w = w\<lparr> zIndex := index \<rparr>"

definition startResize :: "MouseEvent \<Rightarrow> real \<Rightarrow> real \<Rightarrow> Window \<Rightarrow> Window" where
  "startResize event dx dy w =
     w\<lparr> isResizing := True,
        initialWidth := width w, initialHeight := height w,
        initialX := x_w w, initialY := y_w w,
        initialMouseX := clientX event, initialMouseY := clientY event,
        resizeDirX := dx, resizeDirY := dy \<rparr>"

definition resize :: "viewport \<Rightarrow> MouseEvent \<Rightarrow> Window \<Rightarrow> Window" where
  "resize vp event w =
     (if \<not> isResizing w then w
      else
        let deltaX = clientX event - initialMouseX w;
            deltaY = clientY event - initialMouseY w;
            newWidth = initialWidth w;
            newHeight = height w;
            newX = x_w w;
            newY = y_w w;
            newWidth = (if resizeDirX w \<noteq> 0
                        then max 200 (initialWidth w + deltaX * resizeDirX w) else newWidth);
            newX = (if resizeDirX w \<noteq> 0 \<and> resizeDirX w < 0
                    then initialX w + (initialWidth w - newWidth) else newX);
            newHeight = (if resizeDirY w \<noteq> 0
                         then max 100 (initialHeight w + deltaY * resizeDirY w) else newHeight);
            newY = (if resizeDirY w \<noteq> 0 \<and> resizeDirY w < 0
                    then initialY w + (initialHeight w - newHeight) else newY);
            newX = max 0 (min newX (innerWidth vp - newWidth));
            newY = max 0 (min newY (innerHeight vp - newHeight))
        in w\<lparr> width := newWidth, height := newHeight, x_w := newX, y_w := newY \<rparr>)"


text \<open>
  \<open>getState()\<close>: the object literal it returns, property by property. A missing
  \<open>styles\<close> or \<open>events\<close> of the configuration is \<open>undefined\<close>, a missing icon is
  \<open>null\<close>.
\<close>

definition getState :: "Window \<Rightarrow> jsobj" where
  "getState w =
     [ (''width'', Num (width w)),
       (''height'', Num (height w)),
       (''x'', Num (x_w w)),
       (''y'', Num (y_w w)),
       (''zIndex'', Num (zIndex w)),
       (''isMinimized'', Bool (isMinimized w)),
       (''icon'', (case icon w of None \<Rightarrow> Null | Some s \<Rightarrow> Str s)),
       (''title'', Str (title w)),
       (''content'', Str (content w)),
       (''styles'', (case c_styles (config_w w) of None \<Rightarrow> Undefined | Some st \<Rightarrow> Obj st)),
       (''events'', (case c_events (config_w w) of None \<Rightarrow> Undefined | Some evs \<Rightarrow> Obj evs)) ]"

section \<open>Remote content (the window.js that environment.js imports)\<close>

text \<open>
  \<open>fetchWindowContents\<close> is modelled with the platform as parameters: \<open>fetch\<close> gives
  the outcome of \<open>await fetch(url)\<close>, \<open>parse\<close> what \<open>DOMParser\<close> finds in the text
  (\<open>title\<close> and \<open>body\<close>, \<open>None\<close> when the element is missing), and \<open>origin\<close> the
  value of \<open>new URL(url).origin\<close>, \<open>None\<close> when the constructor throws on a URL that is
  not absolute. A rejected promise of the asynchronous function is a \<open>Threw\<close> outcome.
\<close>

datatype 'a outcome = Returned 'a | Threw js_error

datatype fetch_result =
    FetchRejected string
  | FetchResponse bool nat string

record ParsedPage =
  p_title :: "string option"
  p_body :: "string option"

text \<open>
  \<open>HTMLImageElement()\<close>: \<open>HTMLImageElement\<close> is a DOM interface object; calling it as
  a function, without \<open>new\<close>, throws a TypeError in every browser.
\<close>

definition HTMLImageElement_call :: "js_error + unit" where
  "HTMLImageElement_call = Inl (TypeError ''Illegal constructor'')"

text \<open>\<open>s || d\<close> for an optional string.\<close>

definition str_or :: "string option \<Rightarrow> string \<Rightarrow> string" where
  "str_or v d = (case v of None \<Rightarrow> d | Some s \<Rightarrow> if s \<noteq> [] then s else d)"

text \<open>
  The body of the \<open>try\<close> block: the error thrown, if any, and the window as it is at
  that point. \<open>handleScripts\<close> catches its own errors and only appends to the content
  area of the DOM.
\<close>

definition fetch_try ::
  "(string \<Rightarrow> fetch_result) \<Rightarrow> (string \<Rightarrow> ParsedPage) \<Rightarrow> (string \<Rightarrow> string option) \<Rightarrow>
   string \<Rightarrow> string \<Rightarrow> string \<Rightarrow> Window \<Rightarrow> js_error option \<times> Window" where
  "fetch_try fetch parse origin url oldTitle oldContent w =
     (case fetch url of
        FetchRejected msg \<Rightarrow> (Some (NetworkError msg), w)
      | FetchResponse ok status data \<Rightarrow>
          if \<not> ok then (Some (HttpError ''HTTP error! status''), w)
          else
            let page = parse data;
                w1 = w\<lparr> title := str_or (p_title page) oldTitle \<rparr>;
                w2 = w1\<lparr> content := str_or (p_body page) oldContent \<rparr>
            in (case origin url of
                  None \<Rightarrow> (Some (TypeError ''Invalid URL''), w2)
                | Some baseUrl \<Rightarrow> (None, w2)))"

text \<open>
  The \<open>try\<close>/\<open>catch\<close> statement: the outcome, the window, and what \<open>console.error\<close>
  printed.
\<close>

definition fetch_try_catch ::
  "(string \<Rightarrow> fetch_result) \<Rightarrow> (string \<Rightarrow> ParsedPage) \<Rightarrow> (string \<Rightarrow> string option) \<Rightarrow>
   string \<Rightarrow> string \<Rightarrow> string \<Rightarrow> Window \<Rightarrow> unit outcome \<times> Window \<times> string list" where
  "fetch_try_catch fetch parse origin url oldTitle oldContent w =
     (case fetch_try fetch parse origin url oldTitle oldContent w of
        (None, w') \<Rightarrow> (Returned (), w', [])
      | (Some err, w') \<Rightarrow>
          (Returned (), w'\<lparr> title := oldTitle, content := oldContent \<rparr>,
           [''Failed to fetch window contents:'']))"

definition fetchWindowContents ::
  "(string \<Rightarrow> fetch_result) \<Rightarrow> (string \<Rightarrow> ParsedPage) \<Rightarrow> (string \<Rightarrow> string option) \<Rightarrow>
   string \<Rightarrow> Window \<Rightarrow> unit outcome \<times> Window \<times> string list" where
  "fetchWindowContents fetch parse origin url w =
     (let oldTitle = title w;
          oldContent = content w;
          w1 = w\<lparr> title := ''Loading...'' \<rparr>
      in case HTMLImageElement_call of
           Inl err \<Rightarrow> (Threw err, w1, [])
         | Inr loadingGif \<Rightarrow> fetch_try_catch fetch parse origin url oldTitle oldContent w1)"

section \<open>Environment (environment.js)\<close>

text \<open>
  A window class is known by its name and by whether its prototype is an instance of
  \<open>Window\<close>, which holds for proper subclasses only. The subclasses are not part of the
  sources; a subclass constructor has to call \<open>super(id, config)\<close>, and is modelled as
  doing that and no more.
\<close>

record WindowClass =
  name_c :: string
  extendsWindow :: bool

definition Window_class :: WindowClass where
  "Window_class = \<lparr> name_c = ''Window'', extendsWindow = False \<rparr>"

text \<open>
  The keys of \<open>windowTypes\<close>: the constructor registers types under the class name, and
  \<open>createWindow\<close> registers under the class itself.
\<close>

datatype registry_key = ClassName string | ClassObject string

text \<open>
  The values of \<open>icons\<close>: an \<open>Icon\<close> object of the desktop, which is not a DOM node, or
  the button that \<open>pinWindow\<close> made, known by its identity.
\<close>

datatype icon_entry = DesktopIcon | TaskbarItem nat

text \<open>
  The state of the environment. \<open>elements\<close> are the window elements that are children of
  the environment container, by the identity of their window; \<open>taskbarItems\<close> are the
  children of the taskbar scroll container; \<open>localStorage\<close> is the item
  \<open>windowEnvironmentState\<close>, as the JSON document that its text denotes;
  \<open>console\<close> is what was printed; \<open>nextOid\<close> is the next fresh object identity. Event
  listeners, the pointer tracking and the session fields are not modelled.
\<close>

record Environment =
  windows :: "(string \<times> Window) list"
  icons :: "(string \<times> icon_entry) list"
  zIndexBase :: real
  windowTypes :: "(registry_key \<times> jsobj) list"
  elements :: "nat list"
  taskbarItems :: "nat list"
  localStorage :: "json option"
  console :: "string list"
  nextOid :: nat

text \<open>The default configuration registered for \<open>Window\<close>, \<open>Popup\<close> and \<open>EmojiSelector\<close>.\<close>

definition defaultConfig :: "real \<Rightarrow> real \<Rightarrow> string \<Rightarrow> jsobj" where
  "defaultConfig w h t =
     [ (''width'', Num w), (''height'', Num h), (''icon'', Str []), (''title'', Str t),
       (''content'', Str []), (''styles'', Obj []), (''events'', Obj []),
       (''savedstate'', Obj []) ]"

definition chatConfig :: jsobj where
  "chatConfig =
     [ (''width'', Num 600), (''height'', Num 400), (''icon'', Str []), (''title'', Str ''Chat''),
       (''channel'', Str ''general''), (''username'', Str ''Anonymous''),
       (''content'', Str []), (''styles'', Obj []),
       (''events'', Obj [(''toggleEmojis'', Fn 0), (''usernameChanged'', Fn 1)]),
       (''savedstate'', Obj []) ]"

text \<open>
  \<open>new Environment()\<close>. The names of the three imported classes and the item already in
  the local storage are parameters. The four desktop icons are stored in \<open>icons\<close> under
  their titles.
\<close>

definition Environment_new :: "string \<Rightarrow> string \<Rightarrow> string \<Rightarrow> json option \<Rightarrow> Environment" where
  "Environment_new chatName popupName emojiName stored =
     \<lparr> windows = [],
       icons = [ (''Welcome'', DesktopIcon), (''Current Projects'', DesktopIcon),
                 (''Music'', DesktopIcon), (''Bonzi'', DesktopIcon) ],
       zIndexBase = 1000,
       windowTypes =
         Map_set (ClassName emojiName) (defaultConfig 300 400 ''Emojis'')
           (Map_set (ClassName popupName) (defaultConfig 300 200 ''Popup'')
             (Map_set (ClassName chatName) chatConfig
               (Map_set (ClassName ''Window'') (defaultConfig 600 400 ''Window'') []))),
       elements = [], taskbarItems = [], localStorage = stored, console = [], nextOid = 0 \<rparr>"

text \<open>
  \<open>saveState()\<close>: every window's \<open>getState()\<close> with its class name, in the order of
  the collection, stored as \<open>JSON.stringify(state)\<close>.
\<close>

definition saveState :: "Environment \<Rightarrow> Environment" where
  "saveState e =
     (let state =
            Obj [(''windows'',
              Arr (map (\<lambda>(k, window).
                          Obj (set_prop (getState window) ''className'' (Str (className window))))
                       (windows e)))]
      in e\<lparr> localStorage := stringify state \<rparr>)"

definition clearSavedState :: "Environment \<Rightarrow> Environment" where
  "clearSavedState e = e\<lparr> localStorage := None \<rparr>"

text \<open>\<open>updateZIndices()\<close>: the loop over the collection, with its counter.\<close>

fun updateZIndices_loop :: "real \<Rightarrow> nat \<Rightarrow> (string \<times> Window) list \<Rightarrow> (string \<times> Window) list" where
  "updateZIndices_loop base index [] = []"
| "updateZIndices_loop base index ((k, window) # ws) =
     (k, setZIndex (base + real index) window) # updateZIndices_loop base (Suc index) ws"

definition updateZIndices :: "Environment \<Rightarrow> Environment" where
  "updateZIndices e = e\<lparr> windows := updateZIndices_loop (zIndexBase e) 0 (windows e) \<rparr>"

text \<open>\<open>Array.prototype.indexOf\<close> on window objects compares identities; \<open>None\<close> is -1.\<close>

fun indexOf :: "Window list \<Rightarrow> Window \<Rightarrow> nat option" where
  "indexOf [] window = None"
| "indexOf (v # vs) window =
     (if oid v = oid window then Some 0 else map_option Suc (indexOf vs window))"

text \<open>
  \<open>bringToFront(window)\<close>. The object pushed to the end of the array is the one found at
  \<open>index\<close>, in its current state.
\<close>

definition bringToFront :: "Window \<Rightarrow> Environment \<Rightarrow> Environment" where
  "bringToFront window e =
     (let windowArray = map snd (windows e)
      in case indexOf windowArray window of
           None \<Rightarrow> e
         | Some index \<Rightarrow>
             let windowArray' = take index windowArray @ drop (Suc index) windowArray
                                  @ [windowArray ! index];
                 e1 = e\<lparr> windows := fold (\<lambda>w m. Map_set (id_w w) w m) windowArray' [] \<rparr>
             in saveState (updateZIndices e1))"

text \<open>\<open>pinWindow(window)\<close>: a new button, appended to the taskbar and stored in \<open>icons\<close>.\<close>

definition pinWindow :: "Window \<Rightarrow> Environment \<Rightarrow> Environment" where
  "pinWindow window e =
     e\<lparr> taskbarItems := taskbarItems e @ [nextOid e],
        icons := Map_set (id_w window) (TaskbarItem (nextOid e)) (icons e),
        nextOid := Suc (nextOid e) \<rparr>"

text \<open>
  \<open>removeWindow(window)\<close>. \<open>removeChild\<close> throws a NotFoundError when its argument is
  not a child of the node, and a TypeError when its argument is not a node, as
  \<open>undefined\<close> and an \<open>Icon\<close> object are. What was assigned before a throw stays assigned.
\<close>

definition removeWindow :: "Window \<Rightarrow> Environment \<Rightarrow> unit outcome \<times> Environment" where
  "removeWindow window e =
     (let e0 = e\<lparr> console := console e @ [''Removing window: '' @ id_w window] \<rparr>
      in if Map_has (id_w window) (windows e0) then
           let e1 = e0\<lparr> windows := Map_delete (id_w window) (windows e0) \<rparr>
           in if oid window \<notin> set (elements e1)
              then (Threw (NotFoundError ''removeChild: the node is not a child of this node''), e1)
              else
                let e2 = e1\<lparr> elements := remove1 (oid window) (elements e1) \<rparr>
                in (case Map_get (id_w window) (icons e2) of
                      Some (TaskbarItem b) \<Rightarrow>
                        if b \<notin> set (taskbarItems e2)
                        then (Threw (NotFoundError ''removeChild: the node is not a child of this node''), e2)
                        else
                          let e3 = e2\<lparr> taskbarItems := remove1 b (taskbarItems e2) \<rparr>;
                              e4 = e3\<lparr> icons := Map_delete (id_w window) (icons e3) \<rparr>
                          in (Returned (), saveState (updateZIndices e4))
                    | Some DesktopIcon \<Rightarrow>
                        (Threw (TypeError ''removeChild: parameter 1 is not of type Node''), e2)
                    | None \<Rightarrow>
                        (Threw (TypeError ''removeChild: parameter 1 is not of type Node''), e2))
         else (Returned (), e0))"

text \<open>
  The loop of \<open>createWindow\<close> over the keys of the default configuration:
  \<open>config[defaultKey] = config[defaultKey] || defaultconfig[defaultKey]\<close>.
\<close>

fun mergeDefaults_loop :: "string list \<Rightarrow> jsobj \<Rightarrow> jsobj \<Rightarrow> jsobj" where
  "mergeDefaults_loop [] defaultconfig config = config"
| "mergeDefaults_loop (defaultKey # keys) defaultconfig config =
     mergeDefaults_loop keys defaultconfig
       (set_prop config defaultKey
          (js_or (get_prop config defaultKey) (get_prop defaultconfig defaultKey)))"

definition mergeDefaults :: "jsobj \<Rightarrow> jsobj \<Rightarrow> jsobj" where
  "mergeDefaults defaultconfig config = mergeDefaults_loop (map fst defaultconfig) defaultconfig config"

text \<open>
  The configuration object read as a \<open>WindowConfig\<close>: \<open>None\<close> when a property does not
  have the type that the typedef gives it, which is outside this model.
\<close>

fun req_num :: "jsval \<Rightarrow> real option" where
  "req_num (Num r) = Some r"
| "req_num v = None"

fun req_str :: "jsval \<Rightarrow> string option" where
  "req_str (Str s) = Some s"
| "req_str v = None"

fun opt_num :: "jsval \<Rightarrow> real option option" where
  "opt_num (Num r) = Some (Some r)"
| "opt_num Undefined = Some None"
| "opt_num Null = Some None"
| "opt_num v = None"

fun opt_str :: "jsval \<Rightarrow> string option option" where
  "opt_str (Str s) = Some (Some s)"
| "opt_str Undefined = Some None"
| "opt_str Null = Some None"
| "opt_str v = None"

fun opt_bool :: "jsval \<Rightarrow> bool option option" where
  "opt_bool (Bool b) = Some (Some b)"
| "opt_bool Undefined = Some None"
| "opt_bool Null = Some None"
| "opt_bool v = None"

fun opt_obj :: "jsval \<Rightarrow> jsobj option option" where
  "opt_obj (Obj ps) = Some (Some ps)"
| "opt_obj Undefined = Some None"
| "opt_obj Null = Some None"
| "opt_obj v = None"

definition read_config :: "jsobj \<Rightarrow> WindowConfig option" where
  "read_config obj =
     Option.bind (req_num (get_prop obj ''width'')) (\<lambda>w.
     Option.bind (req_num (get_prop obj ''height'')) (\<lambda>h.
     Option.bind (opt_str (get_prop obj ''icon'')) (\<lambda>i.
     Option.bind (req_str (get_prop obj ''title'')) (\<lambda>t.
     Option.bind (req_str (get_prop obj ''content'')) (\<lambda>c.
     Option.bind (opt_obj (get_prop obj ''styles'')) (\<lambda>st.
     Option.bind (opt_obj (get_prop obj ''events'')) (\<lambda>evs.
     Option.bind (opt_num (get_prop obj ''x'')) (\<lambda>x.
     Option.bind (opt_num (get_prop obj ''y'')) (\<lambda>y.
     Option.bind (opt_num (get_prop obj ''zIndex'')) (\<lambda>z.
     Option.bind (opt_bool (get_prop obj ''isMinimized'')) (\<lambda>m.
       Some \<lparr> c_width = w, c_height = h, c_icon = i, c_title = t, c_content = c,
              c_styles = st, c_events = evs, c_x = x, c_y = y, c_zIndex = z,
              c_isMinimized = m \<rparr>)))))))))))"

text \<open>
  The first part of \<open>createWindow\<close> after the test for a duplicate: the class to
  instantiate, the configuration to hand to it, and the environment with what was
  printed and registered.
\<close>

definition resolveClass :: "WindowClass \<Rightarrow> jsobj \<Rightarrow> Environment \<Rightarrow> WindowClass \<times> jsobj \<times> Environment" where
  "resolveClass WindowClass config e =
     (if \<not> Map_has (ClassName (name_c WindowClass)) (windowTypes e) then
        let e1 = e\<lparr> console := console e @ [''>> '' @ name_c WindowClass @ '' class not registered in windowTypes''] \<rparr>
        in if extendsWindow WindowClass then
             let e2 = e1\<lparr> console := console e1 @ [''>>> Window class is a subclass of Window - Registering new Type''] \<rparr>;
                 e3 = e2\<lparr> windowTypes :=
                        Map_set (ClassObject (name_c WindowClass))
                          [ (''width'', js_or (get_prop config ''width'') (Num 600)),
                            (''height'', js_or (get_prop config ''height'') (Num 400)),
                            (''title'', js_or (get_prop config ''title'') (Str [])),
                            (''icon'', js_or (get_prop config ''icon'') (Str [])),
                            (''styles'', js_or (get_prop config ''styles'') (Obj [])),
                            (''events'', js_or (get_prop config ''events'') (Obj [])),
                            (''savedstate'', js_or (get_prop config ''savedstate'') (Obj [])) ]
                          (windowTypes e2) \<rparr>
             in (WindowClass, config, e3)
           else
             (Window_class, config,
              e1\<lparr> console := console e1 @ [''>>>Window class is not a subclass of Window - Using default Window class.''] \<rparr>)
      else
        (case Map_get (ClassName (name_c WindowClass)) (windowTypes e) of
           Some defaultconfig \<Rightarrow> (WindowClass, mergeDefaults defaultconfig config, e)
         | None \<Rightarrow> (WindowClass, config, e)))"

text \<open>
  \<open>createWindow(id, WindowClass, config)\<close> in the viewport \<open>vp\<close>, with \<open>rx\<close> and \<open>ry\<close>
  the values of \<open>Math.random()\<close> in the constructor. \<open>has(id)\<close> and \<open>get(id)\<close> are
  the one lookup \<open>Map_get\<close>. The window returned is the object in the collection, in its
  state after \<open>updateZIndices()\<close>. The constructor throws before anything is added to
  the collection.
\<close>

definition createWindow ::
  "viewport \<Rightarrow> real \<Rightarrow> real \<Rightarrow> string \<Rightarrow> WindowClass \<Rightarrow> jsobj \<Rightarrow> Environment \<Rightarrow>
   Window outcome \<times> Environment" where
  "createWindow vp rx ry ident WindowClass config e =
     (case Map_get ident (windows e) of
        Some existing \<Rightarrow>
          (Returned existing,
           e\<lparr> console := console e @ [''Window with id '' @ ident @ '' already exists. Skipping creation.''] \<rparr>)
      | None \<Rightarrow>
          (case resolveClass WindowClass config e of
             (cls, config', e1) \<Rightarrow>
               (case read_config config' of
                  None \<Rightarrow> (Threw NotAWindowConfig, e1)
                | Some c \<Rightarrow>
                    (case Window_new vp rx ry (nextOid e1) (name_c cls) ident c of
                       Inl err \<Rightarrow> (Threw err, e1)
                     | Inr newWindow \<Rightarrow>
                         let e2 = e1\<lparr> nextOid := Suc (nextOid e1) \<rparr>;
                             e3 = e2\<lparr> windows := Map_set (id_w newWindow) newWindow (windows e2) \<rparr>;
                             e4 = e3\<lparr> elements := elements e3 @ [oid newWindow] \<rparr>;
                             e5 = saveState (updateZIndices e4)
                         in (Returned (case Map_get (id_w newWindow) (windows e5) of
                                         Some w \<Rightarrow> w | None \<Rightarrow> newWindow), e5)))))"

text \<open>
  \<open>newWindow(WindowClass, config)\<close>, with \<open>uuid\<close> the value of \<open>crypto.randomUUID()\<close>.
\<close>

definition newWindow ::
  "viewport \<Rightarrow> real \<Rightarrow> real \<Rightarrow> string \<Rightarrow> WindowClass \<Rightarrow> jsobj \<Rightarrow> Environment \<Rightarrow>
   Window outcome \<times> Environment" where
  "newWindow vp rx ry uuid WindowClass config e =
     (case createWindow vp rx ry uuid WindowClass config e of
        (Threw err, e1) \<Rightarrow> (Threw err, e1)
      | (Returned window, e1) \<Rightarrow>
          let e2 = pinWindow window e1;
              e3 = bringToFront window e2;
              e4 = updateZIndices e3;
              e5 = saveState e4
          in (Returned (case Map_get (id_w window) (windows e5) of
                          Some w \<Rightarrow> w | None \<Rightarrow> window), e5))"

section \<open>Properties of the collection\<close>

text \<open>
  The z-indices of the collection, in its order, are \<open>zIndexBase\<close>, \<open>zIndexBase + 1\<close>,
  and so on.
\<close>

definition zIndices_contiguous :: "Environment \<Rightarrow> bool" where
  "zIndices_contiguous e =
     (map (\<lambda>p. zIndex (snd p)) (windows e)
        = map (\<lambda>k. zIndexBase e + real k) [0 ..< length (windows e)])"

text \<open>
  What the code maintains of the collection: a \<open>Map\<close> has each key once, every window is
  stored under its own id (\<open>set\<close> is only called with \<open>w.id\<close>), and the windows are
  distinct objects (each comes from its own \<open>new\<close>).
\<close>

definition windows_ok :: "Environment \<Rightarrow> bool" where
  "windows_ok e =
     (distinct (map fst (windows e))
      \<and> list_all (\<lambda>p. id_w (snd p) = fst p) (windows e)
      \<and> distinct (map (\<lambda>p. oid (snd p)) (windows e)))"

text \<open>The element at \<open>i\<close> moved to the end: \<open>splice(i, 1)\<close> and then \<open>push\<close>.\<close>

definition relocate :: "nat \<Rightarrow> 'a list \<Rightarrow> 'a list" where
  "relocate i xs = take i xs @ drop (Suc i) xs @ [xs ! i]"

text \<open>
  The environments that \<open>createWindow\<close>, \<open>newWindow\<close>, \<open>removeWindow\<close> and
  \<open>bringToFront\<close> reach from a new one, with any arguments; and those reached when no
  call of \<open>removeWindow\<close> has thrown.
\<close>

inductive reachable :: "Environment \<Rightarrow> bool" where
  start: "reachable (Environment_new chatName popupName emojiName stored)"
| create: "reachable e \<Longrightarrow> reachable (snd (createWindow vp rx ry ident WindowClass config e))"
| new: "reachable e \<Longrightarrow> reachable (snd (newWindow vp rx ry uuid WindowClass config e))"
| remove: "reachable e \<Longrightarrow> reachable (snd (removeWindow window e))"
| front: "reachable e \<Longrightarrow> reachable (bringToFront window e)"

inductive reachable_without_throw :: "Environment \<Rightarrow> bool" where
  start: "reachable_without_throw (Environment_new chatName popupName emojiName stored)"
| create: "reachable_without_throw e \<Longrightarrow>
           reachable_without_throw (snd (createWindow vp rx ry ident WindowClass config e))"
| new: "reachable_without_throw e \<Longrightarrow>
        reachable_without_throw (snd (newWindow vp rx ry uuid WindowClass config e))"
| remove: "reachable_without_throw e \<Longrightarrow> fst (removeWindow window e) = Returned () \<Longrightarrow>
           reachable_without_throw (snd (removeWindow window e))"
| front: "reachable_without_throw e \<Longrightarrow> reachable_without_throw (bringToFront window e)"

text \<open>Every window of the collection was made before the next object identity.\<close>

definition oids_allocated :: "Environment \<Rightarrow> bool" where
  "oids_allocated e = list_all (\<lambda>i. i < nextOid e) (map (\<lambda>p. oid (snd p)) (windows e))"

section \<open>The windows of the scenarios\<close>

text \<open>
  The scenarios of the specification use a viewport of 1000 by 800 and a window of width
  600 and height 400 at position (50, 50). \<open>placedConfig\<close> is the same configuration
  with \<open>x = 0\<close>, no \<open>y\<close> and \<open>zIndex = 0\<close>; \<open>busyWindow\<close> is the window after a
  pointer-down at (100, 100) on its title bar and on its bottom-right handle.
\<close>

definition exampleViewport :: viewport where
  "exampleViewport = \<lparr> innerWidth = 1000, innerHeight = 800 \<rparr>"

definition exampleConfig :: WindowConfig where
  "exampleConfig =
     \<lparr> c_width = 600, c_height = 400, c_icon = None, c_title = ''A'', c_content = [],
       c_styles = Some [], c_events = Some [], c_x = Some 50, c_y = Some 50,
       c_zIndex = None, c_isMinimized = None \<rparr>"

definition exampleWindow :: Window where
  "exampleWindow =
     \<lparr> oid = 0, className = ''Window'', config_w = exampleConfig, id_w = ''A'',
       width = 600, height = 400, title = ''A'', content = [], zIndex = 1,
       isMinimized = False, icon = None, isDragging = False, isResizing = False,
       initialX = 0, initialY = 0, initialMouseX = 0, initialMouseY = 0,
       x_w = 50, y_w = 50,
       initialWidth = 0, initialHeight = 0, resizeDirX = 0, resizeDirY = 0 \<rparr>"

definition placedConfig :: WindowConfig where
  "placedConfig = exampleConfig\<lparr> c_x := Some 0, c_y := None, c_zIndex := Some 0 \<rparr>"

definition placedWindow :: Window where
  "placedWindow = exampleWindow\<lparr> config_w := placedConfig, x_w := 150, y_w := 100 \<rparr>"

definition busyWindow :: Window where
  "busyWindow = startResize \<lparr>clientX = 100, clientY = 100\<rparr> 1 1
                  (startDrag \<lparr>clientX = 100, clientY = 100\<rparr> exampleWindow)"

text \<open>
  The environments of the scenarios: a new environment; then window A (600 by 400) and
  window B (300 by 200) made by \<open>createWindow\<close> with default placement, both values of
  \<open>Math.random()\<close> being 1/2. \<open>windowA\<close> and \<open>windowB\<close> are the two windows as they are
  in \<open>envAB\<close>. \<open>envABC\<close> has a third window C, of the configuration of B. \<open>envAB2\<close> and
  \<open>envBA\<close> hold two windows of the same configuration, made under the ids A then B, and
  B then A. \<open>envF\<close> holds one window F whose configuration has an event handler.
\<close>

definition emptyEnv :: Environment where
  "emptyEnv = Environment_new ''ChatWindow'' ''Popup'' ''EmojiSelector'' None"

definition configA :: jsobj where
  "configA = [(''width'', Num 600), (''height'', Num 400)]"

definition configB :: jsobj where
  "configB = [(''width'', Num 300), (''height'', Num 200)]"

definition envA :: Environment where
  "envA = snd (createWindow exampleViewport (1/2) (1/2) ''A'' Window_class configA emptyEnv)"

definition envAB :: Environment where
  "envAB = snd (createWindow exampleViewport (1/2) (1/2) ''B'' Window_class configB envA)"

definition windowA :: Window where
  "windowA = \<lparr> oid = 0, className = ''Window'',
      config_w = \<lparr> c_width = 600, c_height = 400, c_icon = Some [], c_title = ''Window'',
                   c_content = [], c_styles = Some [], c_events = Some [],
                   c_x = None, c_y = None, c_zIndex = None, c_isMinimized = None \<rparr>,
      id_w = ''A'', width = 600, height = 400, title = ''Window'', content = [],
      zIndex = 1000, isMinimized = False, icon = None, isDragging = False, isResizing = False,
      initialX = 0, initialY = 0, initialMouseX = 0, initialMouseY = 0,
      x_w = 150, y_w = 100,
      initialWidth = 0, initialHeight = 0, resizeDirX = 0, resizeDirY = 0 \<rparr>"

definition windowB :: Window where
  "windowB = \<lparr> oid = 1, className = ''Window'',
      config_w = \<lparr> c_width = 300, c_height = 200, c_icon = Some [], c_title = ''Window'',
                   c_content = [], c_styles = Some [], c_events = Some [],
                   c_x = None, c_y = None, c_zIndex = None, c_isMinimized = None \<rparr>,
      id_w = ''B'', width = 300, height = 200, title = ''Window'', content = [],
      zIndex = 1001, isMinimized = False, icon = None, isDragging = False, isResizing = False,
      initialX = 0, initialY = 0, initialMouseX = 0, initialMouseY = 0,
      x_w = 300, y_w = 200,
      initialWidth = 0, initialHeight = 0, resizeDirX = 0, resizeDirY = 0 \<rparr>"




definition envABC :: Environment where
  "envABC = snd (createWindow exampleViewport (1/2) (1/2) ''C'' Window_class configB envAB)"

definition windowC :: Window where
  "windowC = windowB\<lparr> oid := 2, id_w := ''C'', zIndex := 1002 \<rparr>"




section \<open>Properties of the window\<close>

subsection \<open>The scenario windows\<close>

lemma exampleWindow_new:
  "Window_new exampleViewport rx ry 0 ''Window'' ''A'' exampleConfig = Inr exampleWindow"
  by (simp add: Window_new_def exampleConfig_def exampleWindow_def num_or_def str_or_null_def)

lemma exampleWindow_fields:
  "x_w exampleWindow = 50" "y_w exampleWindow = 50"
  "width exampleWindow = 600" "height exampleWindow = 400"
  "isDragging exampleWindow = False" "isResizing exampleWindow = False"
  by (simp_all add: exampleWindow_def)

lemma exampleViewport_fields:
  "innerWidth exampleViewport = 1000" "innerHeight exampleViewport = 800"
  by (simp_all add: exampleViewport_def)

lemma exampleConfig_fields:
  "c_x exampleConfig = Some 50" "c_y exampleConfig = Some 50" "c_zIndex exampleConfig = None"
  "c_isMinimized exampleConfig = None" "c_icon exampleConfig = None"
  by (simp_all add: exampleConfig_def)

lemma placedWindow_new:
  "Window_new exampleViewport (1/2) (1/2) 0 ''Window'' ''A'' placedConfig = Inr placedWindow"
  by (simp add: Window_new_def placedConfig_def placedWindow_def exampleConfig_def exampleWindow_def
        exampleViewport_def num_or_def str_or_null_def placeX_def placeY_def)

lemma placedWindow_fields:
  "x_w placedWindow = 150" "y_w placedWindow = 100" "zIndex placedWindow = 1"
  "width placedWindow = 600" "height placedWindow = 400"
  "c_x placedConfig = Some 0" "c_y placedConfig = None" "c_zIndex placedConfig = Some 0"
  by (simp_all add: placedWindow_def placedConfig_def exampleWindow_def)

lemma busyWindow_fields:
  "isDragging busyWindow" "isResizing busyWindow"
  "x_w busyWindow = 50" "y_w busyWindow = 50" "width busyWindow = 600" "height busyWindow = 400"
  by (simp_all add: busyWindow_def startResize_def startDrag_def exampleWindow_fields)

subsection \<open>Dragging\<close>

lemma drag_unfold:
  "isDragging w \<Longrightarrow>
   drag vp ev w =
     w\<lparr> x_w := max 0 (min (initialX w + (clientX ev - initialMouseX w)) (innerWidth vp - width w)),
        y_w := max 0 (min (initialY w + (clientY ev - initialMouseY w)) (innerHeight vp - height w)) \<rparr>"
  by (simp add: drag_def Let_def split del: if_split)

lemma drag_idle: "\<not> isDragging w \<Longrightarrow> drag vp ev w = w"
  by (simp add: drag_def)

lemma drag_size: "width (drag vp ev w) = width w" "height (drag vp ev w) = height w"
  by (simp_all add: drag_def Let_def)

lemma drag_bounds:
  "isDragging w \<Longrightarrow>
   0 \<le> x_w (drag vp ev w) \<and> 0 \<le> y_w (drag vp ev w)
   \<and> (width (drag vp ev w) \<le> innerWidth vp \<longrightarrow> x_w (drag vp ev w) \<le> innerWidth vp - width (drag vp ev w))
   \<and> (height (drag vp ev w) \<le> innerHeight vp \<longrightarrow> y_w (drag vp ev w) \<le> innerHeight vp - height (drag vp ev w))"
  by (simp add: drag_unfold)

text \<open>
  Claim C1. While the window is dragging, a pointer-move to \<open>(clientX, clientY)\<close> sets
  the position to the anchor position plus the pointer displacement since the anchor,
  clamped into the viewport, where clamping \<open>v\<close> to \<open>[0, hi]\<close> is
  \<open>max 0 (min v hi)\<close> as the code writes it, and changes no other field; a window that
  is not dragging is left as it is. The witness is the scenario of the specification: a
  drag that starts at pointer (100, 100) with the window at (50, 50), width 600 and height
  400 in a viewport of 1000 by 800, and moves to (50, 80), ends at (0, 30).
\<close>

theorem drag_position:
  "(isDragging w \<longrightarrow>
      drag vp ev w =
        w\<lparr> x_w := max 0 (min (initialX w + clientX ev - initialMouseX w) (innerWidth vp - width w)),
           y_w := max 0 (min (initialY w + clientY ev - initialMouseY w) (innerHeight vp - height w)) \<rparr>)
   \<and> (\<not> isDragging w \<longrightarrow> drag vp ev w = w)"
proof -
  have a: "initialX w + clientX ev - initialMouseX w = initialX w + (clientX ev - initialMouseX w)"
    by simp
  have b: "initialY w + clientY ev - initialMouseY w = initialY w + (clientY ev - initialMouseY w)"
    by simp
  show ?thesis
    unfolding a b using drag_unfold [of w vp ev] drag_idle [of w vp ev] by blast
qed

theorem drag_position_witness:
  "isDragging (startDrag \<lparr>clientX = 100, clientY = 100\<rparr> exampleWindow)
   \<and> x_w (drag exampleViewport \<lparr>clientX = 50, clientY = 80\<rparr>
            (startDrag \<lparr>clientX = 100, clientY = 100\<rparr> exampleWindow)) = 0
   \<and> y_w (drag exampleViewport \<lparr>clientX = 50, clientY = 80\<rparr>
            (startDrag \<lparr>clientX = 100, clientY = 100\<rparr> exampleWindow)) = 30
   \<and> \<not> isDragging exampleWindow
   \<and> drag exampleViewport \<lparr>clientX = 50, clientY = 80\<rparr> exampleWindow = exampleWindow"
  using drag_position [of "startDrag \<lparr>clientX = 100, clientY = 100\<rparr> exampleWindow"
                          exampleViewport "\<lparr>clientX = 50, clientY = 80\<rparr>"]
        drag_position [of exampleWindow exampleViewport "\<lparr>clientX = 50, clientY = 80\<rparr>"]
  by (simp add: startDrag_def exampleWindow_fields exampleViewport_def)

subsection \<open>Resizing\<close>

lemma resize_idle: "\<not> isResizing w \<Longrightarrow> resize vp ev w = w"
  by (simp add: resize_def)

lemma resize_width:
  "isResizing w \<Longrightarrow> resizeDirX w \<noteq> 0 \<Longrightarrow>
   width (resize vp ev w) = max 200 (initialWidth w + resizeDirX w * (clientX ev - initialMouseX w))"
  by (simp add: resize_def Let_def mult.commute split del: if_split)

lemma resize_height:
  "isResizing w \<Longrightarrow> resizeDirY w \<noteq> 0 \<Longrightarrow>
   height (resize vp ev w) = max 100 (initialHeight w + resizeDirY w * (clientY ev - initialMouseY w))"
  by (simp add: resize_def Let_def mult.commute split del: if_split)

lemma resize_x:
  "isResizing w \<Longrightarrow> resizeDirX w \<noteq> 0 \<Longrightarrow>
   x_w (resize vp ev w) =
     max 0 (min (if resizeDirX w < 0 then initialX w + (initialWidth w - width (resize vp ev w))
                 else x_w w) (innerWidth vp - width (resize vp ev w)))"
  by (simp add: resize_def Let_def split del: if_split cong del: if_weak_cong)

lemma resize_y:
  "isResizing w \<Longrightarrow> resizeDirY w \<noteq> 0 \<Longrightarrow>
   y_w (resize vp ev w) =
     max 0 (min (if resizeDirY w < 0 then initialY w + (initialHeight w - height (resize vp ev w))
                 else y_w w) (innerHeight vp - height (resize vp ev w)))"
  by (simp add: resize_def Let_def split del: if_split cong del: if_weak_cong)

lemma resize_x_bounds:
  "isResizing w \<Longrightarrow>
   0 \<le> x_w (resize vp ev w) \<and>
   (width (resize vp ev w) \<le> innerWidth vp \<longrightarrow>
      x_w (resize vp ev w) \<le> innerWidth vp - width (resize vp ev w))"
  by (simp add: resize_def Let_def split del: if_split)

lemma resize_y_bounds:
  "isResizing w \<Longrightarrow>
   0 \<le> y_w (resize vp ev w) \<and>
   (height (resize vp ev w) \<le> innerHeight vp \<longrightarrow>
      y_w (resize vp ev w) \<le> innerHeight vp - height (resize vp ev w))"
  by (simp add: resize_def Let_def split del: if_split)

text \<open>
  Claim C2. While the window is resizing from a corner handle with direction
  \<open>(dx, dy)\<close>, both in \<open>{-1, 1}\<close>, a pointer-move with displacement
  \<open>(deltaX, deltaY)\<close> from the anchor gives the width \<open>max 200 (initialWidth + dx * deltaX)\<close>
  and the height \<open>max 100 (initialHeight + dy * deltaY)\<close>; for \<open>dx = -1\<close> the new
  \<open>x\<close> is \<open>initialX + (initialWidth - newWidth)\<close> and for \<open>dy = -1\<close> the new \<open>y\<close>
  is \<open>initialY + (initialHeight - newHeight)\<close>, then clamped to
  \<open>[0, innerWidth - newWidth]\<close> and \<open>[0, innerHeight - newHeight]\<close>. Where the clamp
  does not bite, the opposite edge stays where it was, and a resize from a right or bottom
  handle leaves the coordinate as it is. The witness holds the two scenarios of the
  specification: from the bottom-right handle 50 pixels to the right, width 600 becomes 650
  and the position stays; from the top-left handle by (-50, -50), width and height grow by
  50 and \<open>x\<close> and \<open>y\<close> each go down by 50.
\<close>

theorem resize_geometry:
  assumes r: "isResizing w"
    and dx: "resizeDirX w = -1 \<or> resizeDirX w = 1"
    and dy: "resizeDirY w = -1 \<or> resizeDirY w = 1"
  shows "let deltaX = clientX ev - initialMouseX w;
             deltaY = clientY ev - initialMouseY w;
             w' = resize vp ev w
         in width w' = max 200 (initialWidth w + resizeDirX w * deltaX)
          \<and> height w' = max 100 (initialHeight w + resizeDirY w * deltaY)
          \<and> x_w w' = max 0 (min (if resizeDirX w = -1 then initialX w + (initialWidth w - width w')
                                  else x_w w) (innerWidth vp - width w'))
          \<and> y_w w' = max 0 (min (if resizeDirY w = -1 then initialY w + (initialHeight w - height w')
                                  else y_w w) (innerHeight vp - height w'))
          \<and> (resizeDirX w = -1 \<and> width w' \<le> initialX w + initialWidth w
                \<and> initialX w + initialWidth w \<le> innerWidth vp
              \<longrightarrow> x_w w' + width w' = initialX w + initialWidth w)
          \<and> (resizeDirY w = -1 \<and> height w' \<le> initialY w + initialHeight w
                \<and> initialY w + initialHeight w \<le> innerHeight vp
              \<longrightarrow> y_w w' + height w' = initialY w + initialHeight w)
          \<and> (resizeDirX w = 1 \<and> 0 \<le> x_w w \<and> x_w w + width w' \<le> innerWidth vp \<longrightarrow> x_w w' = x_w w)
          \<and> (resizeDirY w = 1 \<and> 0 \<le> y_w w \<and> y_w w + height w' \<le> innerHeight vp \<longrightarrow> y_w w' = y_w w)"
proof -
  define w' where "w' = resize vp ev w"
  from dx have nx: "resizeDirX w \<noteq> 0" and lx: "(resizeDirX w < 0) = (resizeDirX w = -1)" by auto
  from dy have ny: "resizeDirY w \<noteq> 0" and ly: "(resizeDirY w < 0) = (resizeDirY w = -1)" by auto
  have W: "width w' = max 200 (initialWidth w + resizeDirX w * (clientX ev - initialMouseX w))"
    unfolding w'_def by (rule resize_width [OF r nx])
  have H: "height w' = max 100 (initialHeight w + resizeDirY w * (clientY ev - initialMouseY w))"
    unfolding w'_def by (rule resize_height [OF r ny])
  have X: "x_w w' = max 0 (min (if resizeDirX w = -1 then initialX w + (initialWidth w - width w')
                                else x_w w) (innerWidth vp - width w'))"
    unfolding w'_def using resize_x [OF r nx, of vp ev] unfolding lx .
  have Y: "y_w w' = max 0 (min (if resizeDirY w = -1 then initialY w + (initialHeight w - height w')
                                else y_w w) (innerHeight vp - height w'))"
    unfolding w'_def using resize_y [OF r ny, of vp ev] unfolding ly .
  have AX: "resizeDirX w = -1 \<and> width w' \<le> initialX w + initialWidth w
                \<and> initialX w + initialWidth w \<le> innerWidth vp
              \<longrightarrow> x_w w' + width w' = initialX w + initialWidth w"
    using X by (simp add: max_def min_def)
  have AY: "resizeDirY w = -1 \<and> height w' \<le> initialY w + initialHeight w
                \<and> initialY w + initialHeight w \<le> innerHeight vp
              \<longrightarrow> y_w w' + height w' = initialY w + initialHeight w"
    using Y by (simp add: max_def min_def)
  have PX: "resizeDirX w = 1 \<and> 0 \<le> x_w w \<and> x_w w + width w' \<le> innerWidth vp \<longrightarrow> x_w w' = x_w w"
    using X by (simp add: max_def min_def)
  have PY: "resizeDirY w = 1 \<and> 0 \<le> y_w w \<and> y_w w + height w' \<le> innerHeight vp \<longrightarrow> y_w w' = y_w w"
    using Y by (simp add: max_def min_def)
  from W H X Y AX AY PX PY show ?thesis
    unfolding Let_def w'_def [symmetric] by blast
qed

theorem resize_geometry_witness:
  "isResizing (startResize \<lparr>clientX = 100, clientY = 100\<rparr> 1 1 exampleWindow)
   \<and> width (resize exampleViewport \<lparr>clientX = 150, clientY = 100\<rparr>
               (startResize \<lparr>clientX = 100, clientY = 100\<rparr> 1 1 exampleWindow)) = 650
   \<and> x_w (resize exampleViewport \<lparr>clientX = 150, clientY = 100\<rparr>
               (startResize \<lparr>clientX = 100, clientY = 100\<rparr> 1 1 exampleWindow)) = 50
   \<and> y_w (resize exampleViewport \<lparr>clientX = 150, clientY = 100\<rparr>
               (startResize \<lparr>clientX = 100, clientY = 100\<rparr> 1 1 exampleWindow)) = 50
   \<and> isResizing (startResize \<lparr>clientX = 100, clientY = 100\<rparr> (-1) (-1) exampleWindow)
   \<and> width (resize exampleViewport \<lparr>clientX = 50, clientY = 50\<rparr>
               (startResize \<lparr>clientX = 100, clientY = 100\<rparr> (-1) (-1) exampleWindow)) = 650
   \<and> height (resize exampleViewport \<lparr>clientX = 50, clientY = 50\<rparr>
               (startResize \<lparr>clientX = 100, clientY = 100\<rparr> (-1) (-1) exampleWindow)) = 450
   \<and> x_w (resize exampleViewport \<lparr>clientX = 50, clientY = 50\<rparr>
               (startResize \<lparr>clientX = 100, clientY = 100\<rparr> (-1) (-1) exampleWindow)) = 0
   \<and> y_w (resize exampleViewport \<lparr>clientX = 50, clientY = 50\<rparr>
               (startResize \<lparr>clientX = 100, clientY = 100\<rparr> (-1) (-1) exampleWindow)) = 0"
  using resize_geometry [of "startResize \<lparr>clientX = 100, clientY = 100\<rparr> 1 1 exampleWindow"
                            "\<lparr>clientX = 150, clientY = 100\<rparr>" exampleViewport]
        resize_geometry [of "startResize \<lparr>clientX = 100, clientY = 100\<rparr> (-1) (-1) exampleWindow"
                            "\<lparr>clientX = 50, clientY = 50\<rparr>" exampleViewport]
  by (simp add: Let_def startResize_def exampleWindow_fields exampleViewport_def)

subsection \<open>The position and the viewport\<close>

lemma handleResize_bounds:
  "x_w (handleResize vp w) \<le> max 0 (innerWidth vp - width (handleResize vp w))
   \<and> y_w (handleResize vp w) \<le> max 0 (innerHeight vp - height (handleResize vp w))
   \<and> (0 \<le> x_w w \<longrightarrow> 0 \<le> x_w (handleResize vp w))
   \<and> (0 \<le> y_w w \<longrightarrow> 0 \<le> y_w (handleResize vp w))
   \<and> width (handleResize vp w) = width w \<and> height (handleResize vp w) = height w"
  by (simp add: handleResize_def Let_def)

lemma Window_new_fields:
  assumes "Window_new vp rx ry oi cls ident c = Inr w"
  shows "x_w w = num_or (c_x c) (placeX vp rx (c_width c))"
    and "y_w w = num_or (c_y c) (placeY vp ry (c_height c))"
    and "zIndex w = num_or (c_zIndex c) 1"
    and "width w = c_width c" and "height w = c_height c"
    and "isMinimized w = (case c_isMinimized c of None \<Rightarrow> False | Some b \<Rightarrow> b)"
    and "icon w = str_or_null (c_icon c)"
    and "config_w w = c" and "id_w w = ident" and "oid w = oi" and "className w = cls"
    and "title w = c_title c" and "content w = c_content c"
    and "\<not> isDragging w" and "\<not> isResizing w"
  using assms by (auto simp add: Window_new_def split: option.splits)

lemma placeX_bounds: "w \<le> innerWidth vp \<Longrightarrow> 0 \<le> placeX vp r w \<and> placeX vp r w \<le> innerWidth vp - w"
  by (simp add: placeX_def)

lemma placeY_bounds: "h \<le> innerHeight vp \<Longrightarrow> 0 \<le> placeY vp r h \<and> placeY vp r h \<le> innerHeight vp - h"
  by (simp add: placeY_def)

text \<open>
  Claim C3 says that after construction, a drag step, a resize step or a viewport-resize
  re-clamp the position satisfies \<open>0 \<le> x \<le> innerWidth - width\<close> and
  \<open>0 \<le> y \<le> innerHeight - height\<close>, for every configuration and every viewport.
  The code does not do that: the constructor takes a non-zero \<open>config.x\<close> as it is
  (5000 in a viewport 1000 wide), \<open>handleResize\<close> only lowers a coordinate and so keeps
  a negative one, and in a viewport smaller than the window a drag step ends at \<open>x = 0\<close>,
  which is above \<open>innerWidth - width\<close>.
\<close>

theorem position_invariant_counterexample:
  "(case Window_new exampleViewport 0 0 0 ''Window'' ''A'' (exampleConfig\<lparr> c_x := Some 5000 \<rparr>) of
      Inl e \<Rightarrow> False
    | Inr w \<Rightarrow> x_w w = 5000 \<and> \<not> x_w w \<le> innerWidth exampleViewport - width w)
   \<and> (case Window_new exampleViewport 0 0 0 ''Window'' ''A'' (exampleConfig\<lparr> c_x := Some (-5) \<rparr>) of
      Inl e \<Rightarrow> False
    | Inr w \<Rightarrow> x_w (handleResize exampleViewport w) = -5 \<and> \<not> 0 \<le> x_w (handleResize exampleViewport w))
   \<and> isDragging (startDrag \<lparr>clientX = 100, clientY = 100\<rparr> exampleWindow)
   \<and> x_w (drag \<lparr>innerWidth = 500, innerHeight = 300\<rparr> \<lparr>clientX = 100, clientY = 100\<rparr>
            (startDrag \<lparr>clientX = 100, clientY = 100\<rparr> exampleWindow)) = 0
   \<and> \<not> x_w (drag \<lparr>innerWidth = 500, innerHeight = 300\<rparr> \<lparr>clientX = 100, clientY = 100\<rparr>
            (startDrag \<lparr>clientX = 100, clientY = 100\<rparr> exampleWindow))
        \<le> 500 - width (drag \<lparr>innerWidth = 500, innerHeight = 300\<rparr> \<lparr>clientX = 100, clientY = 100\<rparr>
            (startDrag \<lparr>clientX = 100, clientY = 100\<rparr> exampleWindow))"
  by (simp add: Window_new_def exampleConfig_def exampleViewport_def num_or_def str_or_null_def
        handleResize_def Let_def drag_def startDrag_def exampleWindow_def)

text \<open>
  Claim C3 as amended. After a drag step and after a resize step, \<open>x\<close> and \<open>y\<close> are
  never negative, and \<open>x \<le> innerWidth - width\<close> (\<open>y \<le> innerHeight - height\<close>)
  whenever the window's new width (height) is at most the viewport's. After
  \<open>handleResize\<close>, \<open>x \<le> max 0 (innerWidth - width)\<close> and
  \<open>y \<le> max 0 (innerHeight - height)\<close>, and a coordinate that was not negative is
  still not negative. After construction, a coordinate that the configuration leaves out
  or gives as 0 is placed within these bounds whenever the window fits the viewport, and a
  non-zero coordinate of the configuration is taken as it is.
\<close>

theorem position_bounds:
  "(isDragging w \<longrightarrow>
      (let w' = drag vp ev w
       in 0 \<le> x_w w' \<and> 0 \<le> y_w w'
        \<and> (width w' \<le> innerWidth vp \<longrightarrow> x_w w' \<le> innerWidth vp - width w')
        \<and> (height w' \<le> innerHeight vp \<longrightarrow> y_w w' \<le> innerHeight vp - height w')))
   \<and> (isResizing w \<longrightarrow>
      (let w' = resize vp ev w
       in 0 \<le> x_w w' \<and> 0 \<le> y_w w'
        \<and> (width w' \<le> innerWidth vp \<longrightarrow> x_w w' \<le> innerWidth vp - width w')
        \<and> (height w' \<le> innerHeight vp \<longrightarrow> y_w w' \<le> innerHeight vp - height w')))
   \<and> (let w' = handleResize vp w
       in x_w w' \<le> max 0 (innerWidth vp - width w')
        \<and> y_w w' \<le> max 0 (innerHeight vp - height w')
        \<and> (0 \<le> x_w w \<longrightarrow> 0 \<le> x_w w')
        \<and> (0 \<le> y_w w \<longrightarrow> 0 \<le> y_w w'))
   \<and> (Window_new vp rx ry oi cls ident c = Inr w0 \<longrightarrow>
        ((c_x c = None \<or> c_x c = Some 0) \<and> width w0 \<le> innerWidth vp
           \<longrightarrow> 0 \<le> x_w w0 \<and> x_w w0 \<le> innerWidth vp - width w0)
      \<and> ((c_y c = None \<or> c_y c = Some 0) \<and> height w0 \<le> innerHeight vp
           \<longrightarrow> 0 \<le> y_w w0 \<and> y_w w0 \<le> innerHeight vp - height w0)
      \<and> (\<forall>v. c_x c = Some v \<and> v \<noteq> 0 \<longrightarrow> x_w w0 = v)
      \<and> (\<forall>v. c_y c = Some v \<and> v \<noteq> 0 \<longrightarrow> y_w w0 = v))"
proof -
  have d: "isDragging w \<longrightarrow>
      (let w' = drag vp ev w
       in 0 \<le> x_w w' \<and> 0 \<le> y_w w'
        \<and> (width w' \<le> innerWidth vp \<longrightarrow> x_w w' \<le> innerWidth vp - width w')
        \<and> (height w' \<le> innerHeight vp \<longrightarrow> y_w w' \<le> innerHeight vp - height w'))"
    unfolding Let_def using drag_bounds [of w vp ev] by blast
  have r: "isResizing w \<longrightarrow>
      (let w' = resize vp ev w
       in 0 \<le> x_w w' \<and> 0 \<le> y_w w'
        \<and> (width w' \<le> innerWidth vp \<longrightarrow> x_w w' \<le> innerWidth vp - width w')
        \<and> (height w' \<le> innerHeight vp \<longrightarrow> y_w w' \<le> innerHeight vp - height w'))"
    unfolding Let_def using resize_x_bounds [of w vp ev] resize_y_bounds [of w vp ev] by blast
  have h: "let w' = handleResize vp w
       in x_w w' \<le> max 0 (innerWidth vp - width w')
        \<and> y_w w' \<le> max 0 (innerHeight vp - height w')
        \<and> (0 \<le> x_w w \<longrightarrow> 0 \<le> x_w w')
        \<and> (0 \<le> y_w w \<longrightarrow> 0 \<le> y_w w')"
    unfolding Let_def using handleResize_bounds [of vp w] by blast
  have c: "Window_new vp rx ry oi cls ident c = Inr w0 \<longrightarrow>
        ((c_x c = None \<or> c_x c = Some 0) \<and> width w0 \<le> innerWidth vp
           \<longrightarrow> 0 \<le> x_w w0 \<and> x_w w0 \<le> innerWidth vp - width w0)
      \<and> ((c_y c = None \<or> c_y c = Some 0) \<and> height w0 \<le> innerHeight vp
           \<longrightarrow> 0 \<le> y_w w0 \<and> y_w w0 \<le> innerHeight vp - height w0)
      \<and> (\<forall>v. c_x c = Some v \<and> v \<noteq> 0 \<longrightarrow> x_w w0 = v)
      \<and> (\<forall>v. c_y c = Some v \<and> v \<noteq> 0 \<longrightarrow> y_w w0 = v)"
  proof
    assume n: "Window_new vp rx ry oi cls ident c = Inr w0"
    note f = Window_new_fields [OF n]
    have x: "(c_x c = None \<or> c_x c = Some 0) \<and> width w0 \<le> innerWidth vp
           \<longrightarrow> 0 \<le> x_w w0 \<and> x_w w0 \<le> innerWidth vp - width w0"
      using placeX_bounds [of "c_width c" vp rx] by (auto simp add: f num_or_def)
    have y: "(c_y c = None \<or> c_y c = Some 0) \<and> height w0 \<le> innerHeight vp
           \<longrightarrow> 0 \<le> y_w w0 \<and> y_w w0 \<le> innerHeight vp - height w0"
      using placeY_bounds [of "c_height c" vp ry] by (auto simp add: f num_or_def)
    have xv: "\<forall>v. c_x c = Some v \<and> v \<noteq> 0 \<longrightarrow> x_w w0 = v"
      by (simp add: f num_or_def)
    have yv: "\<forall>v. c_y c = Some v \<and> v \<noteq> 0 \<longrightarrow> y_w w0 = v"
      by (simp add: f num_or_def)
    from x y xv yv
    show "((c_x c = None \<or> c_x c = Some 0) \<and> width w0 \<le> innerWidth vp
           \<longrightarrow> 0 \<le> x_w w0 \<and> x_w w0 \<le> innerWidth vp - width w0)
      \<and> ((c_y c = None \<or> c_y c = Some 0) \<and> height w0 \<le> innerHeight vp
           \<longrightarrow> 0 \<le> y_w w0 \<and> y_w w0 \<le> innerHeight vp - height w0)
      \<and> (\<forall>v. c_x c = Some v \<and> v \<noteq> 0 \<longrightarrow> x_w w0 = v)
      \<and> (\<forall>v. c_y c = Some v \<and> v \<noteq> 0 \<longrightarrow> y_w w0 = v)" by blast
  qed
  from d r h c show ?thesis by blast
qed

theorem position_bounds_witness:
  "isDragging busyWindow \<and> isResizing busyWindow
   \<and> 0 \<le> x_w (drag exampleViewport \<lparr>clientX = 900, clientY = 80\<rparr> busyWindow)
   \<and> x_w (drag exampleViewport \<lparr>clientX = 900, clientY = 80\<rparr> busyWindow) \<le> 1000 - 600
   \<and> 0 \<le> y_w (drag exampleViewport \<lparr>clientX = 900, clientY = 80\<rparr> busyWindow)
   \<and> y_w (drag exampleViewport \<lparr>clientX = 900, clientY = 80\<rparr> busyWindow) \<le> 800 - 400
   \<and> 0 \<le> x_w (resize exampleViewport \<lparr>clientX = 900, clientY = 80\<rparr> busyWindow)
   \<and> 0 \<le> y_w (resize exampleViewport \<lparr>clientX = 900, clientY = 80\<rparr> busyWindow)
   \<and> 0 \<le> x_w (handleResize exampleViewport busyWindow)
   \<and> 0 \<le> y_w (handleResize exampleViewport busyWindow)
   \<and> Window_new exampleViewport (1/2) (1/2) 0 ''Window'' ''A'' placedConfig = Inr placedWindow
   \<and> 0 \<le> x_w placedWindow \<and> x_w placedWindow \<le> 1000 - 600
   \<and> 0 \<le> y_w placedWindow \<and> y_w placedWindow \<le> 800 - 400
   \<and> Window_new exampleViewport (1/2) (1/2) 0 ''Window'' ''A'' exampleConfig = Inr exampleWindow
   \<and> x_w exampleWindow = 50 \<and> y_w exampleWindow = 50"
  using position_bounds [where w = busyWindow
          and vp = exampleViewport and ev = "\<lparr>clientX = 900, clientY = 80\<rparr>"
          and rx = "1/2" and ry = "1/2" and oi = 0 and cls = "''Window''" and ident = "''A''"
          and c = placedConfig and ?w0.0 = placedWindow]
        position_bounds [where w = busyWindow
          and vp = exampleViewport and ev = "\<lparr>clientX = 900, clientY = 80\<rparr>"
          and rx = "1/2" and ry = "1/2" and oi = 0 and cls = "''Window''" and ident = "''A''"
          and c = exampleConfig and ?w0.0 = exampleWindow]
  by (simp add: Let_def drag_size busyWindow_fields exampleWindow_fields
        exampleViewport_fields placedWindow_new placedWindow_fields exampleWindow_new
        exampleConfig_fields)

subsection \<open>Falsy configuration values\<close>

text \<open>
  Claim C10 says that the constructor treats every falsy field of the configuration as
  absent, that only truthy values are honoured, and that no caller can place a window at
  \<open>x = 0\<close> through the configuration. The constructor assigns \<open>width\<close>, \<open>height\<close>,
  \<open>title\<close> and \<open>content\<close> as they are, so a width of 0 and an empty title reach the
  window; and with \<open>x = 0\<close> the placement expression is taken, which is itself 0 for a
  window 950 wide in a viewport 1000 wide.
\<close>

theorem falsy_config_counterexample:
  "(case Window_new exampleViewport (1/2) (1/2) 0 ''Window'' ''A''
           (exampleConfig\<lparr> c_width := 0, c_title := [] \<rparr>) of
      Inl e \<Rightarrow> False
    | Inr w \<Rightarrow> width w = 0 \<and> title w = [])
   \<and> (case Window_new exampleViewport (1/2) (1/2) 0 ''Window'' ''A''
           (exampleConfig\<lparr> c_width := 950, c_x := Some 0 \<rparr>) of
      Inl e \<Rightarrow> False
    | Inr w \<Rightarrow> x_w w = 0)"
  by (simp add: Window_new_def exampleConfig_def exampleViewport_def num_or_def placeX_def)

text \<open>
  Claim C10 as amended. The constructor reads \<open>x\<close>, \<open>y\<close>, \<open>zIndex\<close>,
  \<open>isMinimized\<close> and \<open>icon\<close> through \<open>||\<close>, so for these five fields a falsy value
  does what an absent one does: with \<open>x = 0\<close> or \<open>y = 0\<close> the coordinate is the value
  of the placement expression, a \<open>zIndex\<close> of 0 becomes 1, \<open>isMinimized\<close> is false and
  the icon is \<open>null\<close>, and only a truthy value of them reaches the window. \<open>width\<close>,
  \<open>height\<close>, \<open>title\<close> and \<open>content\<close> are taken as supplied, falsy or not.
\<close>

theorem constructor_falsy_config:
  assumes n: "Window_new vp rx ry oi cls ident c = Inr w"
  shows "(c_x c = None \<or> c_x c = Some 0 \<longrightarrow> x_w w = placeX vp rx (width w))
       \<and> (c_y c = None \<or> c_y c = Some 0 \<longrightarrow> y_w w = placeY vp ry (height w))
       \<and> (c_zIndex c = None \<or> c_zIndex c = Some 0 \<longrightarrow> zIndex w = 1)
       \<and> (c_isMinimized c = None \<or> c_isMinimized c = Some False \<longrightarrow> \<not> isMinimized w)
       \<and> (c_icon c = None \<or> c_icon c = Some [] \<longrightarrow> icon w = None)
       \<and> (\<forall>v. c_x c = Some v \<and> v \<noteq> 0 \<longrightarrow> x_w w = v)
       \<and> (\<forall>v. c_y c = Some v \<and> v \<noteq> 0 \<longrightarrow> y_w w = v)
       \<and> (\<forall>v. c_zIndex c = Some v \<and> v \<noteq> 0 \<longrightarrow> zIndex w = v)
       \<and> (c_isMinimized c = Some True \<longrightarrow> isMinimized w)
       \<and> (\<forall>s. c_icon c = Some s \<and> s \<noteq> [] \<longrightarrow> icon w = Some s)
       \<and> width w = c_width c \<and> height w = c_height c
       \<and> title w = c_title c \<and> content w = c_content c"
proof -
  note f = Window_new_fields [OF n]
  have 1: "c_x c = None \<or> c_x c = Some 0 \<longrightarrow> x_w w = placeX vp rx (width w)"
    by (auto simp add: f num_or_def)
  have 2: "c_y c = None \<or> c_y c = Some 0 \<longrightarrow> y_w w = placeY vp ry (height w)"
    by (auto simp add: f num_or_def)
  have 3: "c_zIndex c = None \<or> c_zIndex c = Some 0 \<longrightarrow> zIndex w = 1"
    by (auto simp add: f num_or_def)
  have 4: "c_isMinimized c = None \<or> c_isMinimized c = Some False \<longrightarrow> \<not> isMinimized w"
    by (auto simp add: f)
  have 5: "c_icon c = None \<or> c_icon c = Some [] \<longrightarrow> icon w = None"
    by (auto simp add: f str_or_null_def)
  have 6: "\<forall>v. c_x c = Some v \<and> v \<noteq> 0 \<longrightarrow> x_w w = v"
    by (simp add: f num_or_def)
  have 7: "\<forall>v. c_y c = Some v \<and> v \<noteq> 0 \<longrightarrow> y_w w = v"
    by (simp add: f num_or_def)
  have 8: "\<forall>v. c_zIndex c = Some v \<and> v \<noteq> 0 \<longrightarrow> zIndex w = v"
    by (simp add: f num_or_def)
  have 9: "c_isMinimized c = Some True \<longrightarrow> isMinimized w"
    by (simp add: f)
  have 10: "\<forall>s. c_icon c = Some s \<and> s \<noteq> [] \<longrightarrow> icon w = Some s"
    by (simp add: f str_or_null_def)
  have 11: "width w = c_width c \<and> height w = c_height c
       \<and> title w = c_title c \<and> content w = c_content c"
    by (simp add: f)
  from 1 2 3 4 5 6 7 8 9 10 11 show ?thesis by blast
qed

theorem constructor_falsy_config_witness:
  "Window_new exampleViewport (1/2) (1/2) 0 ''Window'' ''A'' placedConfig = Inr placedWindow
   \<and> c_x placedConfig = Some 0 \<and> c_y placedConfig = None \<and> c_zIndex placedConfig = Some 0
   \<and> x_w placedWindow = placeX exampleViewport (1/2) 600 \<and> x_w placedWindow = 150
   \<and> y_w placedWindow = placeY exampleViewport (1/2) 400 \<and> y_w placedWindow = 100
   \<and> zIndex placedWindow = 1
   \<and> Window_new exampleViewport (1/2) (1/2) 0 ''Window'' ''A'' exampleConfig = Inr exampleWindow
   \<and> c_x exampleConfig = Some 50 \<and> x_w exampleWindow = 50
   \<and> width exampleWindow = 600 \<and> height exampleWindow = 400
   \<and> title exampleWindow = ''A'' \<and> content exampleWindow = []"
proof -
  have t: "title exampleWindow = ''A''" "content exampleWindow = []"
    "c_title exampleConfig = ''A''" "c_content exampleConfig = []"
    "c_width exampleConfig = 600" "c_height exampleConfig = 400"
    by (simp_all add: exampleWindow_def exampleConfig_def)
  show ?thesis
    using constructor_falsy_config [OF placedWindow_new]
          constructor_falsy_config [OF exampleWindow_new [of "1/2" "1/2"]]
    by (simp add: placedWindow_new placedWindow_fields exampleWindow_new exampleConfig_fields
          exampleWindow_fields t)
qed

section \<open>Properties of the environment\<close>

subsection \<open>Objects, maps and the merge of defaults\<close>

lemma map_of_Map_set: "map_of (Map_set k v m) = (map_of m)(k \<mapsto> v)"
  by (induction m) (auto simp add: fun_eq_iff)

lemma get_prop_set_prop:
  "get_prop (set_prop obj k v) key = (if key = k then v else get_prop obj key)"
  by (simp add: get_prop_def set_prop_def map_of_Map_set)

lemma has_prop_set_prop:
  "has_prop (set_prop obj k v) key = (key = k \<or> has_prop obj key)"
  by (simp add: has_prop_def set_prop_def map_of_Map_set)

lemma get_prop_mergeDefaults_loop:
  "get_prop (mergeDefaults_loop ks d c) key =
     (if key \<in> set ks \<and> \<not> truthy (get_prop c key) then get_prop d key else get_prop c key)"
proof (induction ks arbitrary: c)
  case Nil
  show ?case by simp
next
  case (Cons k ks)
  show ?case
    by (auto simp add: Cons.IH get_prop_set_prop js_or_def)
qed

lemma has_prop_mergeDefaults_loop:
  "has_prop (mergeDefaults_loop ks d c) key = (key \<in> set ks \<or> has_prop c key)"
  by (induction ks arbitrary: c) (auto simp add: has_prop_set_prop)

lemma has_prop_iff: "has_prop obj key = (key \<in> set (map fst obj))"
  by (simp add: has_prop_def map_of_eq_None_iff)

lemma emptyEnv_Window_registered:
  "Map_get (ClassName (name_c Window_class)) (windowTypes emptyEnv)
     = Some (defaultConfig 600 400 ''Window'')"
  by (simp add: emptyEnv_def Environment_new_def Map_get_def Window_class_def)

text \<open>
  Claim C7 says that for a registered type \<open>createWindow\<close> fills in from the stored
  default exactly the fields that are absent from the caller's configuration, and never
  replaces a field that is present. The loop tests \<open>config[defaultKey]\<close> with \<open>||\<close>, so
  a field that is present with a falsy value is replaced too: for the registered class
  \<open>Window\<close>, a configuration whose title is the empty string gets the title
  \<open>Window\<close>.
\<close>

theorem backfill_present_field_counterexample:
  "has_prop [(''width'', Num 730), (''title'', Str [])] ''title''
   \<and> get_prop [(''width'', Num 730), (''title'', Str [])] ''title'' = Str []
   \<and> Map_has (ClassName (name_c Window_class)) (windowTypes emptyEnv)
   \<and> get_prop (fst (snd (resolveClass Window_class
                              [(''width'', Num 730), (''title'', Str [])] emptyEnv))) ''title''
         = Str ''Window''"
  by (simp add: has_prop_def get_prop_def resolveClass_def Map_has_def Map_get_def emptyEnv_def
        Environment_new_def Window_class_def defaultConfig_def mergeDefaults_def set_prop_def
        js_or_def)

text \<open>
  Claim C7 as amended. For a registered type, \<open>createWindow\<close> hands to the constructor
  the caller's configuration in which exactly the fields of the stored default whose value
  in the configuration is falsy (absent, \<open>undefined\<close>, \<open>null\<close>, \<open>false\<close>, 0 or the
  empty string) hold the default's value, field by field and one level deep; a truthy
  field of the configuration is never replaced, and a field the default does not have is
  left alone.
\<close>

theorem createWindow_backfill:
  assumes reg: "Map_get (ClassName (name_c WindowClass)) (windowTypes e) = Some defaultconfig"
  shows "resolveClass WindowClass config e = (WindowClass, mergeDefaults defaultconfig config, e)
       \<and> get_prop (mergeDefaults defaultconfig config) key =
            (if has_prop defaultconfig key \<and> \<not> truthy (get_prop config key)
             then get_prop defaultconfig key else get_prop config key)
       \<and> has_prop (mergeDefaults defaultconfig config) key =
            (has_prop defaultconfig key \<or> has_prop config key)"
proof -
  have 1: "resolveClass WindowClass config e = (WindowClass, mergeDefaults defaultconfig config, e)"
    using reg by (simp add: resolveClass_def Map_has_def Map_get_def)
  have 2: "get_prop (mergeDefaults defaultconfig config) key =
            (if has_prop defaultconfig key \<and> \<not> truthy (get_prop config key)
             then get_prop defaultconfig key else get_prop config key)"
    by (simp add: mergeDefaults_def get_prop_mergeDefaults_loop has_prop_iff)
  have 3: "has_prop (mergeDefaults defaultconfig config) key =
            (has_prop defaultconfig key \<or> has_prop config key)"
    unfolding mergeDefaults_def has_prop_mergeDefaults_loop by (simp add: has_prop_iff)
  from 1 2 3 show ?thesis by blast
qed

theorem createWindow_backfill_witness:
  "Map_get (ClassName (name_c Window_class)) (windowTypes emptyEnv)
     = Some (defaultConfig 600 400 ''Window'')
   \<and> get_prop (mergeDefaults (defaultConfig 600 400 ''Window'')
                  [(''width'', Num 730), (''title'', Str [])]) ''width'' = Num 730
   \<and> get_prop (mergeDefaults (defaultConfig 600 400 ''Window'')
                  [(''width'', Num 730), (''title'', Str [])]) ''height'' = Num 400
   \<and> get_prop (mergeDefaults (defaultConfig 600 400 ''Window'')
                  [(''width'', Num 730), (''title'', Str [])]) ''title'' = Str ''Window''
   \<and> get_prop (mergeDefaults (defaultConfig 600 400 ''Window'')
                  [(''width'', Num 730), (''title'', Str [])]) ''initialURL'' = Undefined"
  using createWindow_backfill [OF emptyEnv_Window_registered,
          of "[(''width'', Num 730), (''title'', Str [])]" "''width''"]
        createWindow_backfill [OF emptyEnv_Window_registered,
          of "[(''width'', Num 730), (''title'', Str [])]" "''height''"]
        createWindow_backfill [OF emptyEnv_Window_registered,
          of "[(''width'', Num 730), (''title'', Str [])]" "''title''"]
        createWindow_backfill [OF emptyEnv_Window_registered,
          of "[(''width'', Num 730), (''title'', Str [])]" "''initialURL''"]
  by (simp add: emptyEnv_Window_registered has_prop_def get_prop_def defaultConfig_def)

subsection \<open>The scenario environments\<close>

lemma read_config_merged:
  "read_config (mergeDefaults (defaultConfig 600 400 ''Window'') [(''width'', Num w), (''height'', Num h)])
   = Some \<lparr> c_width = (if w \<noteq> 0 then w else 600), c_height = (if h \<noteq> 0 then h else 400),
            c_icon = Some [], c_title = ''Window'',
            c_content = [], c_styles = Some [], c_events = Some [],
            c_x = None, c_y = None, c_zIndex = None, c_isMinimized = None \<rparr>"
  by (simp add: read_config_def mergeDefaults_def defaultConfig_def get_prop_def set_prop_def js_or_def)

lemma emptyEnv_fields:
  "windows emptyEnv = []" "nextOid emptyEnv = 0" "zIndexBase emptyEnv = 1000"
  "elements emptyEnv = []" "taskbarItems emptyEnv = []"
  "icons emptyEnv = [(''Welcome'', DesktopIcon), (''Current Projects'', DesktopIcon),
                 (''Music'', DesktopIcon), (''Bonzi'', DesktopIcon)]"
  by (simp_all add: emptyEnv_def Environment_new_def)

lemma resolveClass_emptyEnv:
  "resolveClass Window_class config emptyEnv
     = (Window_class, mergeDefaults (defaultConfig 600 400 ''Window'') config, emptyEnv)"
  using createWindow_backfill [OF emptyEnv_Window_registered] by blast

lemma Window_class_fields: "name_c Window_class = ''Window''" "extendsWindow Window_class = False"
  by (simp_all add: Window_class_def)

lemma createWindow_A:
  "createWindow exampleViewport (1/2) (1/2) ''A'' Window_class configA emptyEnv
     = (Returned windowA, envA)"
  and envA_fields:
  "windows envA = [(''A'', windowA)]" "nextOid envA = 1" "zIndexBase envA = 1000"
  "elements envA = [0]" "taskbarItems envA = []" "icons envA = icons emptyEnv"
  "windowTypes envA = windowTypes emptyEnv"
  unfolding envA_def
  by (simp_all add: createWindow_def Map_get_def emptyEnv_fields resolveClass_emptyEnv configA_def
      read_config_merged Window_new_def num_or_def str_or_null_def placeX_def placeY_def
      exampleViewport_def Let_def updateZIndices_def saveState_def setZIndex_def windowA_def
      Window_class_fields)

lemma resolveClass_envA:
  "resolveClass Window_class config envA
     = (Window_class, mergeDefaults (defaultConfig 600 400 ''Window'') config, envA)"
  using createWindow_backfill [of Window_class envA "defaultConfig 600 400 ''Window''"]
        emptyEnv_Window_registered
  by (simp add: envA_fields)

lemma createWindow_B:
  "createWindow exampleViewport (1/2) (1/2) ''B'' Window_class configB envA
     = (Returned windowB, envAB)"
  and envAB_fields:
  "windows envAB = [(''A'', windowA), (''B'', windowB)]" "nextOid envAB = 2"
  "zIndexBase envAB = 1000"
  "elements envAB = [0, 1]" "taskbarItems envAB = []" "icons envAB = icons emptyEnv"
  "windowTypes envAB = windowTypes emptyEnv"
  unfolding envAB_def
  by (simp_all add: createWindow_def Map_get_def envA_fields resolveClass_envA configB_def
      read_config_merged Window_new_def num_or_def str_or_null_def placeX_def placeY_def
      exampleViewport_def Let_def updateZIndices_def saveState_def setZIndex_def windowA_def
      windowB_def Window_class_fields)

lemma windowAB_fields:
  "oid windowA = 0" "oid windowB = 1" "id_w windowA = ''A''" "id_w windowB = ''B''"
  "zIndex windowA = 1000" "zIndex windowB = 1001"
  by (simp_all add: windowA_def windowB_def)

lemma envA_ok: "windows_ok envA"
  by (simp add: windows_ok_def envA_fields windowAB_fields)

lemma envAB_ok: "windows_ok envAB"
  by (simp add: windows_ok_def envAB_fields windowAB_fields)





subsection \<open>Duplicate ids\<close>

text \<open>
  Claim C6. When the id is already a key of the collection, \<open>createWindow\<close> returns the
  window stored under it and changes nothing in the environment but the console, where it
  prints the message about the duplicate; nothing is thrown.
\<close>

theorem createWindow_duplicate:
  assumes dup: "Map_has ident (windows e)"
  shows "\<exists>existing.
           Map_get ident (windows e) = Some existing
         \<and> createWindow vp rx ry ident WindowClass config e
             = (Returned existing,
                e\<lparr> console := console e
                      @ [''Window with id '' @ ident @ '' already exists. Skipping creation.''] \<rparr>)
         \<and> windows (snd (createWindow vp rx ry ident WindowClass config e)) = windows e"
proof -
  from dup obtain existing where g: "Map_get ident (windows e) = Some existing"
    by (auto simp add: Map_has_def Map_get_def)
  have c: "createWindow vp rx ry ident WindowClass config e
             = (Returned existing,
                e\<lparr> console := console e
                      @ [''Window with id '' @ ident @ '' already exists. Skipping creation.''] \<rparr>)"
    by (simp add: createWindow_def g)
  have "windows (snd (createWindow vp rx ry ident WindowClass config e)) = windows e"
    by (simp add: c)
  with g c show ?thesis by blast
qed

theorem createWindow_duplicate_witness:
  "Map_has ''A'' (windows envAB)
   \<and> createWindow exampleViewport (1/2) (1/2) ''A'' Window_class configB envAB
       = (Returned windowA,
          envAB\<lparr> console := console envAB
                   @ [''Window with id A already exists. Skipping creation.''] \<rparr>)
   \<and> windows (snd (createWindow exampleViewport (1/2) (1/2) ''A'' Window_class configB envAB))
       = [(''A'', windowA), (''B'', windowB)]"
  using createWindow_duplicate [of "''A''" envAB exampleViewport "1/2" "1/2" Window_class configB]
  by (simp add: Map_has_def Map_get_def envAB_fields)

subsection \<open>Z-indices\<close>

lemma saveState_fields:
  "windows (saveState e) = windows e" "zIndexBase (saveState e) = zIndexBase e"
  "icons (saveState e) = icons e" "elements (saveState e) = elements e"
  "taskbarItems (saveState e) = taskbarItems e" "nextOid (saveState e) = nextOid e"
  "console (saveState e) = console e" "windowTypes (saveState e) = windowTypes e"
  by (simp_all add: saveState_def)

lemma updateZIndices_fields:
  "zIndexBase (updateZIndices e) = zIndexBase e"
  "icons (updateZIndices e) = icons e" "elements (updateZIndices e) = elements e"
  "taskbarItems (updateZIndices e) = taskbarItems e" "nextOid (updateZIndices e) = nextOid e"
  "console (updateZIndices e) = console e" "windowTypes (updateZIndices e) = windowTypes e"
  "localStorage (updateZIndices e) = localStorage e"
  "windows (updateZIndices e) = updateZIndices_loop (zIndexBase e) 0 (windows e)"
  by (simp_all add: updateZIndices_def)

lemma updateZIndices_loop_length [simp]:
  "length (updateZIndices_loop base n ps) = length ps"
  by (induction ps arbitrary: n) auto

lemma updateZIndices_loop_keys [simp]:
  "map fst (updateZIndices_loop base n ps) = map fst ps"
  by (induction ps arbitrary: n) auto

lemma updateZIndices_loop_nth:
  "k < length ps \<Longrightarrow>
   updateZIndices_loop base n ps ! k = (fst (ps ! k), setZIndex (base + real (n + k)) (snd (ps ! k)))"
proof (induction ps arbitrary: n k)
  case Nil
  then show ?case by simp
next
  case (Cons p ps)
  obtain key w where p: "p = (key, w)" by (cases p)
  show ?case
  proof (cases k)
    case 0
    then show ?thesis by (simp add: p)
  next
    case (Suc j)
    with Cons.prems have "j < length ps" by simp
    from Cons.IH [OF this, of "Suc n"] show ?thesis by (simp add: p Suc)
  qed
qed

lemma updateZIndices_loop_zIndex:
  "map (\<lambda>p. zIndex (snd p)) (updateZIndices_loop base n ps)
     = map (\<lambda>k. base + real k) [n ..< n + length ps]"
proof (induction ps arbitrary: n)
  case Nil
  show ?case by simp
next
  case (Cons p ps)
  obtain key w where p: "p = (key, w)" by (cases p)
  have "[n ..< n + length (p # ps)] = n # [Suc n ..< Suc n + length ps]"
    by (simp add: upt_rec)
  then show ?case using Cons.IH [of "Suc n"] by (simp add: p setZIndex_def)
qed

lemma updateZIndices_loop_modulo:
  "map (\<lambda>p. setZIndex z (snd p)) (updateZIndices_loop base n ps) = map (\<lambda>p. setZIndex z (snd p)) ps"
  by (induction ps arbitrary: n) (auto simp add: setZIndex_def)

lemma updateZIndices_loop_oid [simp]:
  "map (\<lambda>p. oid (snd p)) (updateZIndices_loop base n ps) = map (\<lambda>p. oid (snd p)) ps"
  by (induction ps arbitrary: n) (auto simp add: setZIndex_def)

lemma updateZIndices_loop_id:
  "list_all (\<lambda>p. id_w (snd p) = fst p) (updateZIndices_loop base n ps)
     = list_all (\<lambda>p. id_w (snd p) = fst p) ps"
  by (induction ps arbitrary: n) (auto simp add: setZIndex_def)

lemma updateZIndices_loop_idem:
  "updateZIndices_loop base n (updateZIndices_loop base n ps) = updateZIndices_loop base n ps"
  by (induction ps arbitrary: n) (auto simp add: setZIndex_def)

lemma zIndices_contiguous_updateZIndices: "zIndices_contiguous (updateZIndices e)"
  using updateZIndices_loop_zIndex [of "zIndexBase e" 0 "windows e"]
  by (simp add: zIndices_contiguous_def updateZIndices_fields)

lemma zIndices_contiguous_saveState: "zIndices_contiguous (saveState e) = zIndices_contiguous e"
  by (simp add: zIndices_contiguous_def saveState_fields)

subsection \<open>Bringing a window to the front\<close>

lemma relocate_map: "i < length xs \<Longrightarrow> relocate i (map f xs) = map f (relocate i xs)"
  by (simp add: relocate_def take_map drop_map)

lemma relocate_split: "i < length xs \<Longrightarrow> xs = take i xs @ xs ! i # drop (Suc i) xs"
  by (rule id_take_nth_drop)

lemma relocate_set: "i < length xs \<Longrightarrow> set (relocate i xs) = set xs"
proof -
  assume i: "i < length xs"
  have "set xs = set (take i xs @ xs ! i # drop (Suc i) xs)"
    using relocate_split [OF i] by simp
  also have "\<dots> = set (relocate i xs)"
    unfolding relocate_def by auto
  finally show ?thesis by simp
qed

lemma relocate_distinct: "i < length xs \<Longrightarrow> distinct xs \<Longrightarrow> distinct (relocate i xs)"
proof -
  assume i: "i < length xs" and d: "distinct xs"
  have "distinct (take i xs @ xs ! i # drop (Suc i) xs)"
    using d relocate_split [OF i] by simp
  then show ?thesis unfolding relocate_def by auto
qed

lemma relocate_length [simp]: "i < length xs \<Longrightarrow> length (relocate i xs) = length xs"
  by (simp add: relocate_def)

lemma relocate_last: "i < length xs \<Longrightarrow> relocate i xs ! (length xs - 1) = xs ! i"
proof -
  assume i: "i < length xs"
  have l: "length (take i xs @ drop (Suc i) xs) = length xs - 1" using i by simp
  have "relocate i xs = (take i xs @ drop (Suc i) xs) @ [xs ! i]" by (simp add: relocate_def)
  then show ?thesis using nth_append_length [of "take i xs @ drop (Suc i) xs" "xs ! i" "[]"] l
    by simp
qed

lemma ids_keys:
  "list_all (\<lambda>p. id_w (snd p) = fst p) ps \<Longrightarrow> map id_w (map snd ps) = map fst ps"
  by (induction ps) auto

lemma relocate_last_index: "xs \<noteq> [] \<Longrightarrow> relocate (length xs - 1) xs = xs"
proof -
  assume "xs \<noteq> []"
  then have "take (length xs - 1) xs @ [xs ! (length xs - 1)] = xs"
    by (metis append_butlast_last_id butlast_conv_take last_conv_nth)
  moreover have "drop (Suc (length xs - 1)) xs = []" by simp
  ultimately show ?thesis by (simp add: relocate_def)
qed

lemma Map_set_fresh: "k \<notin> fst ` set m \<Longrightarrow> Map_set k v m = m @ [(k, v)]"
  by (induction m) auto

lemma fold_Map_set:
  "distinct (map id_w ws) \<Longrightarrow> id_w ` set ws \<inter> fst ` set m = {} \<Longrightarrow>
   fold (\<lambda>w m. Map_set (id_w w) w m) ws m = m @ map (\<lambda>w. (id_w w, w)) ws"
proof (induction ws arbitrary: m)
  case Nil
  show ?case by simp
next
  case (Cons w ws)
  from Cons.prems have fresh: "id_w w \<notin> fst ` set m" by auto
  have d: "distinct (map id_w ws)" using Cons.prems by simp
  have "id_w ` set ws \<inter> fst ` set (m @ [(id_w w, w)]) = {}"
    using Cons.prems by auto
  from Cons.IH [OF d this] show ?case by (simp add: Map_set_fresh [OF fresh])
qed

lemma relabel_windows:
  "list_all (\<lambda>p. id_w (snd p) = fst p) ps \<Longrightarrow> map (\<lambda>w. (id_w w, w)) (map snd ps) = ps"
  by (induction ps) auto

lemma indexOf_Some:
  "indexOf ws w = Some i \<Longrightarrow> i < length ws \<and> oid (ws ! i) = oid w"
proof (induction ws arbitrary: i)
  case Nil
  then show ?case by simp
next
  case (Cons v vs)
  show ?case
  proof (cases "oid v = oid w")
    case True
    with Cons.prems show ?thesis by simp
  next
    case False
    with Cons.prems obtain j where j: "indexOf vs w = Some j" "i = Suc j" by auto
    from Cons.IH [OF j(1)] show ?thesis by (simp add: j(2))
  qed
qed

lemma indexOf_last:
  "oid w \<notin> oid ` set ws \<Longrightarrow> oid v = oid w \<Longrightarrow> indexOf (ws @ [v]) w = Some (length ws)"
  by (induction ws) auto

lemma indexOf_oids:
  "map oid ws = map oid ws' \<Longrightarrow> indexOf ws w = indexOf ws' w"
proof (induction ws arbitrary: ws')
  case Nil
  then show ?case by simp
next
  case (Cons v vs)
  then obtain v' vs' where ws': "ws' = v' # vs'" "oid v = oid v'" "map oid vs = map oid vs'"
    by (cases ws') auto
  from Cons.IH [OF ws'(3)] show ?case by (simp add: ws')
qed

lemma bringToFront_absent:
  "indexOf (map snd (windows e)) w = None \<Longrightarrow> bringToFront w e = e"
  by (simp add: bringToFront_def Let_def)

lemma bringToFront_member:
  assumes ok: "windows_ok e" and ix: "indexOf (map snd (windows e)) w = Some i"
  shows "bringToFront w e = saveState (updateZIndices (e\<lparr> windows := relocate i (windows e) \<rparr>))"
proof -
  from indexOf_Some [OF ix] have i: "i < length (windows e)" by simp
  let ?ws = "map snd (windows e)"
  have arr: "take i ?ws @ drop (Suc i) ?ws @ [?ws ! i] = map snd (relocate i (windows e))"
    using relocate_map [of i "windows e" snd] i by (simp add: relocate_def)
  from ok have dk: "distinct (map fst (windows e))"
    and ids: "list_all (\<lambda>p. id_w (snd p) = fst p) (windows e)"
    by (simp_all add: windows_ok_def)
  have ids': "list_all (\<lambda>p. id_w (snd p) = fst p) (relocate i (windows e))"
    using ids relocate_set [OF i] by (simp add: list_all_iff)
  have keys: "map id_w (map snd (relocate i (windows e))) = map fst (relocate i (windows e))"
    by (rule ids_keys [OF ids'])
  have "distinct (map fst (relocate i (windows e)))"
    using relocate_distinct [of i "map fst (windows e)"] dk i relocate_map [of i "windows e" fst]
    by simp
  then have d: "distinct (map id_w (map snd (relocate i (windows e))))"
    unfolding keys .
  have "fold (\<lambda>w m. Map_set (id_w w) w m) (map snd (relocate i (windows e))) []
          = [] @ map (\<lambda>w. (id_w w, w)) (map snd (relocate i (windows e)))"
    by (rule fold_Map_set [OF d]) simp
  also have "\<dots> = relocate i (windows e)"
    using relabel_windows [OF ids'] by simp
  finally have f: "fold (\<lambda>w m. Map_set (id_w w) w m) (map snd (relocate i (windows e))) []
          = relocate i (windows e)" .
  show ?thesis
    unfolding bringToFront_def Let_def ix option.case arr f ..
qed

lemma resolveClass_envAB:
  "resolveClass Window_class config envAB
     = (Window_class, mergeDefaults (defaultConfig 600 400 ''Window'') config, envAB)"
  using createWindow_backfill [of Window_class envAB "defaultConfig 600 400 ''Window''"]
        emptyEnv_Window_registered
  by (simp add: envAB_fields)

lemma envABC_fields:
  "windows envABC = [(''A'', windowA), (''B'', windowB), (''C'', windowC)]"
  "zIndexBase envABC = 1000"
  unfolding envABC_def
  by (simp_all add: createWindow_def Map_get_def envAB_fields resolveClass_envAB configB_def
      read_config_merged Window_new_def num_or_def str_or_null_def placeX_def placeY_def
      exampleViewport_def Let_def updateZIndices_fields saveState_fields setZIndex_def windowA_def
      windowB_def windowC_def Window_class_fields)

lemma windowC_fields: "oid windowC = 2" "id_w windowC = ''C''" "zIndex windowC = 1002"
  by (simp_all add: windowC_def)

lemma envABC_ok: "windows_ok envABC"
  by (simp add: windows_ok_def envABC_fields windowAB_fields windowC_fields)

lemma indexOf_None_iff: "(indexOf ws w = None) = (oid w \<notin> oid ` set ws)"
  by (induction ws) auto

lemma indexOf_distinct:
  "distinct (map oid ws) \<Longrightarrow> i < length ws \<Longrightarrow> oid (ws ! i) = oid w \<Longrightarrow> indexOf ws w = Some i"
proof (induction ws arbitrary: i)
  case Nil
  then show ?case by simp
next
  case (Cons v vs)
  show ?case
  proof (cases i)
    case 0
    with Cons.prems show ?thesis by simp
  next
    case (Suc j)
    with Cons.prems have j: "j < length vs" and o: "oid (vs ! j) = oid w" by simp_all
    from Cons.prems have d: "distinct (map oid vs)" and n: "oid v \<notin> oid ` set vs" by simp_all
    from j have "vs ! j \<in> set vs" by simp
    then have "oid (vs ! j) \<in> oid ` set vs" by (rule imageI)
    with n o have "oid v \<noteq> oid w" by auto
    with Cons.IH [OF d j o] show ?thesis by (simp add: Suc)
  qed
qed

lemma indexOf_member:
  assumes ok: "windows_ok e" and i: "i < length (windows e)"
    and o: "oid (snd (windows e ! i)) = oid w"
  shows "indexOf (map snd (windows e)) w = Some i"
proof -
  from ok have "distinct (map oid (map snd (windows e)))"
    by (simp add: windows_ok_def comp_def)
  then show ?thesis
    using i o by (intro indexOf_distinct) simp_all
qed

lemma indexOf_absent:
  "oid w \<notin> set (map (\<lambda>p. oid (snd p)) (windows e)) \<Longrightarrow> indexOf (map snd (windows e)) w = None"
  by (simp add: indexOf_None_iff image_image)


lemma saveState_updateZIndices_saveState:
  "saveState (updateZIndices (saveState e)) = saveState (updateZIndices e)"
  by (simp add: saveState_def updateZIndices_def)

lemma updateZIndices_idem: "updateZIndices (updateZIndices e) = updateZIndices e"
  by (simp add: updateZIndices_def updateZIndices_loop_idem)

lemma windows_update_same: "e\<lparr> windows := windows e \<rparr> = e"
  by simp

lemma indexOf_Some_windows:
  "indexOf (map snd ps) w = Some i \<Longrightarrow> i < length ps \<and> oid (snd (ps ! i)) = oid w"
  using indexOf_Some [of "map snd ps" w i] by auto

lemma bringToFront_windows:
  assumes ok: "windows_ok e" and ix: "indexOf (map snd (windows e)) w = Some i"
  shows "windows (bringToFront w e) = updateZIndices_loop (zIndexBase e) 0 (relocate i (windows e))"
  by (simp add: bringToFront_member [OF ok ix] saveState_fields updateZIndices_fields)

lemma bringToFront_ok:
  assumes ok: "windows_ok e" and ix: "indexOf (map snd (windows e)) w = Some i"
  shows "windows_ok (bringToFront w e)"
proof -
  from indexOf_Some [OF ix] have i: "i < length (windows e)" by simp
  from ok have dk: "distinct (map fst (windows e))"
    and ids: "list_all (\<lambda>p. id_w (snd p) = fst p) (windows e)"
    and doid: "distinct (map (\<lambda>p. oid (snd p)) (windows e))"
    by (simp_all add: windows_ok_def)
  have 1: "distinct (map fst (relocate i (windows e)))"
    using relocate_distinct [of i "map fst (windows e)"] dk i relocate_map [of i "windows e" fst]
    by simp
  have 2: "list_all (\<lambda>p. id_w (snd p) = fst p) (relocate i (windows e))"
    using ids relocate_set [OF i] by (simp add: list_all_iff)
  have 3: "distinct (map (\<lambda>p. oid (snd p)) (relocate i (windows e)))"
    using relocate_distinct [of i "map (\<lambda>p. oid (snd p)) (windows e)"] doid i
      relocate_map [of i "windows e" "\<lambda>p. oid (snd p)"]
    by simp
  show ?thesis
    unfolding windows_ok_def bringToFront_windows [OF ok ix]
    using 1 2 3 by (simp add: updateZIndices_loop_id)
qed

lemma bringToFront_index_again:
  assumes ok: "windows_ok e" and ix: "indexOf (map snd (windows e)) w = Some i"
  shows "indexOf (map snd (windows (bringToFront w e))) w = Some (length (windows e) - 1)"
proof -
  from indexOf_Some_windows [OF ix] have i: "i < length (windows e)"
    and o: "oid (snd (windows e ! i)) = oid w" by simp_all
  from ok have doid: "distinct (map (\<lambda>p. oid (snd p)) (windows e))"
    by (simp add: windows_ok_def)
  let ?rest = "take i (windows e) @ drop (Suc i) (windows e)"
  have split: "windows e = take i (windows e) @ windows e ! i # drop (Suc i) (windows e)"
    by (rule relocate_split [OF i])
  have "distinct (map (\<lambda>p. oid (snd p)) (take i (windows e) @ windows e ! i # drop (Suc i) (windows e)))"
    using doid split by simp
  then have notin: "oid w \<notin> oid ` set (map snd ?rest)"
    using o by auto
  have oids: "map oid (map snd (windows (bringToFront w e)))
                = map oid (map snd ?rest @ [snd (windows e ! i)])"
    using updateZIndices_loop_oid [of "zIndexBase e" 0 "relocate i (windows e)"]
    by (simp add: bringToFront_windows [OF ok ix] relocate_def comp_def)
  have "indexOf (map snd (windows (bringToFront w e))) w
          = indexOf (map snd ?rest @ [snd (windows e ! i)]) w"
    by (rule indexOf_oids [OF oids])
  also have "\<dots> = Some (length (map snd ?rest))"
    by (rule indexOf_last [OF notin o])
  also have "length (map snd ?rest) = length (windows e) - 1"
    using i by simp
  finally show ?thesis .
qed

lemma bringToFront_idem:
  assumes ok: "windows_ok e"
  shows "bringToFront w (bringToFront w e) = bringToFront w e"
proof (cases "indexOf (map snd (windows e)) w")
  case None
  then show ?thesis by (simp add: bringToFront_absent)
next
  case (Some i)
  let ?e' = "bringToFront w e"
  from indexOf_Some [OF Some] have i: "i < length (windows e)" by simp
  have len: "length (windows ?e') = length (windows e)"
    using i by (simp add: bringToFront_windows [OF ok Some])
  then have ne: "windows ?e' \<noteq> []" using i by auto
  have ok': "windows_ok ?e'" by (rule bringToFront_ok [OF ok Some])
  have ix': "indexOf (map snd (windows ?e')) w = Some (length (windows ?e') - 1)"
    using bringToFront_index_again [OF ok Some] len by simp
  have "bringToFront w ?e'
          = saveState (updateZIndices (?e'\<lparr> windows := relocate (length (windows ?e') - 1) (windows ?e') \<rparr>))"
    by (rule bringToFront_member [OF ok' ix'])
  also have "\<dots> = saveState (updateZIndices ?e')"
    by (simp only: relocate_last_index [OF ne] windows_update_same)
  also have "\<dots> = saveState (updateZIndices (saveState (updateZIndices (e\<lparr> windows := relocate i (windows e) \<rparr>))))"
    by (simp only: bringToFront_member [OF ok Some])
  also have "\<dots> = saveState (updateZIndices (updateZIndices (e\<lparr> windows := relocate i (windows e) \<rparr>)))"
    by (simp only: saveState_updateZIndices_saveState)
  also have "\<dots> = ?e'"
    by (simp only: updateZIndices_idem bringToFront_member [OF ok Some])
  finally show ?thesis .
qed

text \<open>
  Claim C5, for an environment whose collection is as the code maintains it
  (\<open>windows_ok\<close>, which \<open>reachable_windows_ok\<close> below shows of every reachable
  environment). A window is in the collection when the collection holds the same object,
  that is a window of the same \<open>oid\<close>. \<open>bringToFront(w)\<close> leaves the environment as
  it is when \<open>w\<close> is not in the collection. When \<open>w\<close> is the window at any position
  \<open>i\<close>, the new collection is the old one with the entry at \<open>i\<close> moved to the end, the
  other entries in their order and every window unchanged but for its z-index; the z-index
  at position \<open>k\<close> is \<open>zIndexBase + k\<close>, so that of \<open>w\<close>, now last, is above all
  others. A second call gives the same environment as the first. The witness moves B from
  the middle of A, B, C to the end, and holds the scenario of the specification: with A and
  B created in this order, \<open>bringToFront(A)\<close> gives the order B, A and A the greater
  z-index.
\<close>

theorem bringToFront_order:
  assumes ok: "windows_ok e"
  shows "(oid w \<notin> set (map (\<lambda>p. oid (snd p)) (windows e)) \<longrightarrow> bringToFront w e = e)
       \<and> (\<forall>i < length (windows e). oid (snd (windows e ! i)) = oid w \<longrightarrow>
            map fst (windows (bringToFront w e))
              = map fst (take i (windows e) @ drop (Suc i) (windows e) @ [windows e ! i])
          \<and> map (\<lambda>p. setZIndex 0 (snd p)) (windows (bringToFront w e))
              = map (\<lambda>p. setZIndex 0 (snd p))
                    (take i (windows e) @ drop (Suc i) (windows e) @ [windows e ! i])
          \<and> (\<forall>k < length (windows e).
                zIndex (snd (windows (bringToFront w e) ! k)) = zIndexBase e + real k)
          \<and> (\<forall>k < length (windows e) - 1.
                zIndex (snd (windows (bringToFront w e) ! k))
                  < zIndex (snd (windows (bringToFront w e) ! (length (windows e) - 1))))
          \<and> oid (snd (windows (bringToFront w e) ! (length (windows e) - 1))) = oid w)
       \<and> bringToFront w (bringToFront w e) = bringToFront w e"
proof -
  have a: "oid w \<notin> set (map (\<lambda>p. oid (snd p)) (windows e)) \<longrightarrow> bringToFront w e = e"
    using indexOf_absent bringToFront_absent by blast
  have b: "\<forall>i < length (windows e). oid (snd (windows e ! i)) = oid w \<longrightarrow>
            map fst (windows (bringToFront w e))
              = map fst (take i (windows e) @ drop (Suc i) (windows e) @ [windows e ! i])
          \<and> map (\<lambda>p. setZIndex 0 (snd p)) (windows (bringToFront w e))
              = map (\<lambda>p. setZIndex 0 (snd p))
                    (take i (windows e) @ drop (Suc i) (windows e) @ [windows e ! i])
          \<and> (\<forall>k < length (windows e).
                zIndex (snd (windows (bringToFront w e) ! k)) = zIndexBase e + real k)
          \<and> (\<forall>k < length (windows e) - 1.
                zIndex (snd (windows (bringToFront w e) ! k))
                  < zIndex (snd (windows (bringToFront w e) ! (length (windows e) - 1))))
          \<and> oid (snd (windows (bringToFront w e) ! (length (windows e) - 1))) = oid w"
  proof (intro allI impI)
    fix i
    assume i: "i < length (windows e)" and o: "oid (snd (windows e ! i)) = oid w"
    have ix: "indexOf (map snd (windows e)) w = Some i"
      by (rule indexOf_member [OF ok i o])
    note W = bringToFront_windows [OF ok ix]
    have rl: "length (relocate i (windows e)) = length (windows e)" using i by simp
    have keys: "map fst (windows (bringToFront w e))
              = map fst (take i (windows e) @ drop (Suc i) (windows e) @ [windows e ! i])"
      unfolding W by (simp add: relocate_def)
    have same: "map (\<lambda>p. setZIndex 0 (snd p)) (windows (bringToFront w e))
              = map (\<lambda>p. setZIndex 0 (snd p))
                    (take i (windows e) @ drop (Suc i) (windows e) @ [windows e ! i])"
      unfolding W updateZIndices_loop_modulo by (simp add: relocate_def)
    have z: "\<forall>k < length (windows e).
                zIndex (snd (windows (bringToFront w e) ! k)) = zIndexBase e + real k"
    proof (intro allI impI)
      fix k assume "k < length (windows e)"
      then have "k < length (relocate i (windows e))" using rl by simp
      from updateZIndices_loop_nth [OF this, of "zIndexBase e" 0]
      show "zIndex (snd (windows (bringToFront w e) ! k)) = zIndexBase e + real k"
        unfolding W by (simp add: setZIndex_def)
    qed
    have top: "\<forall>k < length (windows e) - 1.
                zIndex (snd (windows (bringToFront w e) ! k))
                  < zIndex (snd (windows (bringToFront w e) ! (length (windows e) - 1)))"
    proof (intro allI impI)
      fix k assume k: "k < length (windows e) - 1"
      then have "k < length (windows e)" and "length (windows e) - 1 < length (windows e)" by simp_all
      with z have "zIndex (snd (windows (bringToFront w e) ! k)) = zIndexBase e + real k"
        and "zIndex (snd (windows (bringToFront w e) ! (length (windows e) - 1)))
               = zIndexBase e + real (length (windows e) - 1)" by simp_all
      with k show "zIndex (snd (windows (bringToFront w e) ! k))
                  < zIndex (snd (windows (bringToFront w e) ! (length (windows e) - 1)))"
        by simp
    qed
    have lastk: "length (windows e) - 1 < length (relocate i (windows e))" using i rl by simp
    have "oid (snd (windows (bringToFront w e) ! (length (windows e) - 1)))
            = oid (snd (relocate i (windows e) ! (length (windows e) - 1)))"
      unfolding W using updateZIndices_loop_nth [OF lastk, of "zIndexBase e" 0]
      by (simp add: setZIndex_def)
    also have "\<dots> = oid w" using relocate_last [OF i] o by simp
    finally have front: "oid (snd (windows (bringToFront w e) ! (length (windows e) - 1))) = oid w" .
    from keys same z top front
    show "map fst (windows (bringToFront w e))
              = map fst (take i (windows e) @ drop (Suc i) (windows e) @ [windows e ! i])
          \<and> map (\<lambda>p. setZIndex 0 (snd p)) (windows (bringToFront w e))
              = map (\<lambda>p. setZIndex 0 (snd p))
                    (take i (windows e) @ drop (Suc i) (windows e) @ [windows e ! i])
          \<and> (\<forall>k < length (windows e).
                zIndex (snd (windows (bringToFront w e) ! k)) = zIndexBase e + real k)
          \<and> (\<forall>k < length (windows e) - 1.
                zIndex (snd (windows (bringToFront w e) ! k))
                  < zIndex (snd (windows (bringToFront w e) ! (length (windows e) - 1))))
          \<and> oid (snd (windows (bringToFront w e) ! (length (windows e) - 1))) = oid w"
      by blast
  qed
  from a b bringToFront_idem [OF ok] show ?thesis by blast
qed

theorem bringToFront_order_witness:
  "windows_ok envABC
   \<and> map fst (windows envABC) = [''A'', ''B'', ''C'']
   \<and> oid (snd (windows envABC ! 1)) = oid windowB
   \<and> map fst (windows (bringToFront windowB envABC)) = [''A'', ''C'', ''B'']
   \<and> zIndex (snd (windows (bringToFront windowB envABC) ! 0)) = 1000
   \<and> zIndex (snd (windows (bringToFront windowB envABC) ! 1)) = 1001
   \<and> zIndex (snd (windows (bringToFront windowB envABC) ! 2)) = 1002
   \<and> oid (snd (windows (bringToFront windowB envABC) ! 2)) = oid windowB
   \<and> bringToFront windowB (bringToFront windowB envABC) = bringToFront windowB envABC
   \<and> windows_ok envAB
   \<and> map fst (windows envAB) = [''A'', ''B'']
   \<and> oid (snd (windows envAB ! 0)) = oid windowA
   \<and> map fst (windows (bringToFront windowA envAB)) = [''B'', ''A'']
   \<and> zIndex (snd (windows (bringToFront windowA envAB) ! 0))
        < zIndex (snd (windows (bringToFront windowA envAB) ! 1))
   \<and> oid (snd (windows (bringToFront windowA envAB) ! 1)) = oid windowA
   \<and> windows_ok envA
   \<and> oid windowB \<notin> set (map (\<lambda>p. oid (snd p)) (windows envA))
   \<and> bringToFront windowB envA = envA"
proof -
  note tB = bringToFront_order [OF envABC_ok, of windowB]
  note tA = bringToFront_order [OF envAB_ok, of windowA]
  note tN = bringToFront_order [OF envA_ok, of windowB]
  have lB: "(1::nat) < length (windows envABC)" "oid (snd (windows envABC ! 1)) = oid windowB"
    by (simp_all add: envABC_fields windowAB_fields)
  have lA: "(0::nat) < length (windows envAB)" "oid (snd (windows envAB ! 0)) = oid windowA"
    by (simp_all add: envAB_fields windowAB_fields)
  note mB = tB [THEN conjunct2, THEN conjunct1, rule_format, OF lB]
  note mA = tA [THEN conjunct2, THEN conjunct1, rule_format, OF lA]
  note zallB = mB [THEN conjunct2, THEN conjunct2, THEN conjunct1, rule_format]
  have kB: "map fst (windows (bringToFront windowB envABC)) = [''A'', ''C'', ''B'']"
    using mB [THEN conjunct1] by (simp add: envABC_fields)
  have zB: "zIndex (snd (windows (bringToFront windowB envABC) ! 0)) = 1000"
    "zIndex (snd (windows (bringToFront windowB envABC) ! 1)) = 1001"
    "zIndex (snd (windows (bringToFront windowB envABC) ! 2)) = 1002"
    using zallB [of 0] zallB [of 1] zallB [of 2] by (simp_all add: envABC_fields)
  have oB: "oid (snd (windows (bringToFront windowB envABC) ! 2)) = oid windowB"
    using mB [THEN conjunct2, THEN conjunct2, THEN conjunct2, THEN conjunct2]
    by (simp add: envABC_fields numeral_2_eq_2)
  have iB: "bringToFront windowB (bringToFront windowB envABC) = bringToFront windowB envABC"
    using tB by blast
  have kA: "map fst (windows (bringToFront windowA envAB)) = [''B'', ''A'']"
    using mA [THEN conjunct1] by (simp add: envAB_fields)
  have zA: "zIndex (snd (windows (bringToFront windowA envAB) ! 0))
        < zIndex (snd (windows (bringToFront windowA envAB) ! 1))"
    using mA [THEN conjunct2, THEN conjunct2, THEN conjunct2, THEN conjunct1, rule_format, of 0]
    by (simp add: envAB_fields)
  have oA: "oid (snd (windows (bringToFront windowA envAB) ! 1)) = oid windowA"
    using mA [THEN conjunct2, THEN conjunct2, THEN conjunct2, THEN conjunct2]
    by (simp add: envAB_fields)
  have nN: "oid windowB \<notin> set (map (\<lambda>p. oid (snd p)) (windows envA))"
    by (simp add: envA_fields windowAB_fields)
  have eN: "bringToFront windowB envA = envA"
    using tN nN by blast
  have k3: "map fst (windows envABC) = [''A'', ''B'', ''C'']" by (simp add: envABC_fields)
  have k2: "map fst (windows envAB) = [''A'', ''B'']" by (simp add: envAB_fields)
  from envABC_ok k3 lB(2) kB zB oB iB envAB_ok k2 lA(2) kA zA oA envA_ok nN eN
  show ?thesis by blast
qed

subsection \<open>Reachable environments\<close>

lemma Map_delete_keys: "map fst (Map_delete k m) = filter (\<lambda>x. x \<noteq> k) (map fst m)"
  by (induction m) (auto simp add: Map_delete_def)

lemma Map_delete_subset: "set (Map_delete k m) \<subseteq> set m"
  by (auto simp add: Map_delete_def)

lemma Map_delete_oids:
  "distinct (map (\<lambda>p. oid (snd p)) m) \<Longrightarrow> distinct (map (\<lambda>p. oid (snd p)) (Map_delete k m))"
  unfolding Map_delete_def by (rule distinct_map_filter)

lemma windows_ok_delete:
  assumes "windows_ok e" "windows e' = Map_delete k (windows e)"
  shows "windows_ok e'"
  using assms Map_delete_subset [of k "windows e"]
  by (auto simp add: windows_ok_def Map_delete_keys Map_delete_oids list_all_iff)

lemma windows_ok_updateZIndices: "windows_ok (updateZIndices e) = windows_ok e"
  by (simp add: windows_ok_def updateZIndices_fields updateZIndices_loop_id)

lemma windows_ok_saveState: "windows_ok (saveState e) = windows_ok e"
  by (simp add: windows_ok_def saveState_fields)

lemma oids_allocated_updateZIndices: "oids_allocated (updateZIndices e) = oids_allocated e"
  by (simp add: oids_allocated_def updateZIndices_fields)

lemma oids_allocated_saveState: "oids_allocated (saveState e) = oids_allocated e"
  by (simp add: oids_allocated_def saveState_fields)

lemma resolveClass_fields:
  "resolveClass WindowClass config e = (cls, config', e1) \<Longrightarrow>
   windows e1 = windows e \<and> nextOid e1 = nextOid e \<and> zIndexBase e1 = zIndexBase e"
  by (auto simp add: resolveClass_def Let_def split: if_splits option.splits)

lemma windows_ok_append:
  assumes ok: "windows_ok e" and al: "oids_allocated e"
    and fresh: "Map_get (id_w w) (windows e) = None" and o: "oid w = nextOid e"
    and w': "windows e' = Map_set (id_w w) w (windows e)" and n': "nextOid e' = Suc (nextOid e)"
  shows "windows_ok e' \<and> oids_allocated e'"
proof -
  from fresh have nk: "id_w w \<notin> fst ` set (windows e)"
    by (simp add: Map_get_def map_of_eq_None_iff)
  have ws: "windows e' = windows e @ [(id_w w, w)]"
    unfolding w' by (rule Map_set_fresh [OF nk])
  from al have lt: "\<forall>i \<in> set (map (\<lambda>p. oid (snd p)) (windows e)). i < nextOid e"
    by (simp add: oids_allocated_def list_all_iff)
  then have no: "oid w \<notin> set (map (\<lambda>p. oid (snd p)) (windows e))"
    using o by auto
  have 1: "windows_ok e'"
    using ok nk no by (simp add: windows_ok_def ws)
  have 2: "oids_allocated e'"
    using lt o by (auto simp add: oids_allocated_def list_all_iff ws n')
  from 1 2 show ?thesis by simp
qed

lemma createWindow_inv:
  assumes ok: "windows_ok e" and al: "oids_allocated e"
  shows "windows_ok (snd (createWindow vp rx ry ident WindowClass config e))
       \<and> oids_allocated (snd (createWindow vp rx ry ident WindowClass config e))"
proof (cases "Map_get ident (windows e)")
  case (Some existing)
  then show ?thesis using ok al
    by (simp add: createWindow_def windows_ok_def oids_allocated_def)
next
  case None
  obtain cls config' e1 where r: "resolveClass WindowClass config e = (cls, config', e1)"
    by (cases "resolveClass WindowClass config e") auto
  note f = resolveClass_fields [OF r]
  have ok1: "windows_ok e1" and al1: "oids_allocated e1"
    using ok al f by (simp_all add: windows_ok_def oids_allocated_def)
  show ?thesis
  proof (cases "read_config config'")
    case None': None
    then show ?thesis using None r ok1 al1 by (simp add: createWindow_def)
  next
    case (Some c)
    show ?thesis
    proof (cases "Window_new vp rx ry (nextOid e1) (name_c cls) ident c")
      case (Inl err)
      then show ?thesis using None r Some ok1 al1 by (simp add: createWindow_def)
    next
      case (Inr newWindow)
      note nf = Window_new_fields [OF Inr]
      define e4 where "e4 = e1\<lparr> nextOid := Suc (nextOid e1),
                                 windows := Map_set (id_w newWindow) newWindow (windows e1),
                                 elements := elements e1 @ [oid newWindow] \<rparr>"
      have fresh: "Map_get (id_w newWindow) (windows e1) = None"
        using None f nf by simp
      have "windows_ok e4 \<and> oids_allocated e4"
        by (rule windows_ok_append [OF ok1 al1 fresh]) (simp_all add: nf e4_def)
      then have "windows_ok (saveState (updateZIndices e4))
               \<and> oids_allocated (saveState (updateZIndices e4))"
        by (simp add: windows_ok_saveState windows_ok_updateZIndices
            oids_allocated_saveState oids_allocated_updateZIndices)
      moreover have "snd (createWindow vp rx ry ident WindowClass config e)
                       = saveState (updateZIndices e4)"
        using None r Some Inr by (simp add: createWindow_def Let_def e4_def)
      ultimately show ?thesis by simp
    qed
  qed
qed

lemma pinWindow_inv:
  "windows_ok e \<Longrightarrow> oids_allocated e \<Longrightarrow>
   windows_ok (pinWindow w e) \<and> oids_allocated (pinWindow w e)"
  by (auto simp add: pinWindow_def windows_ok_def oids_allocated_def list_all_iff)

lemma bringToFront_inv:
  assumes ok: "windows_ok e" and al: "oids_allocated e"
  shows "windows_ok (bringToFront w e) \<and> oids_allocated (bringToFront w e)"
proof (cases "indexOf (map snd (windows e)) w")
  case None
  then show ?thesis using ok al by (simp add: bringToFront_absent)
next
  case (Some i)
  from indexOf_Some_windows [OF Some] have i: "i < length (windows e)" by simp
  have "set (map (\<lambda>p. oid (snd p)) (relocate i (windows e)))
          = set (map (\<lambda>p. oid (snd p)) (windows e))"
    using relocate_set [OF i] by simp
  then have "oids_allocated (e\<lparr> windows := relocate i (windows e) \<rparr>)"
    using al by (simp add: oids_allocated_def list_all_iff)
  then have "oids_allocated (bringToFront w e)"
    by (simp add: bringToFront_member [OF ok Some] oids_allocated_saveState
        oids_allocated_updateZIndices)
  with bringToFront_ok [OF ok Some] show ?thesis by simp
qed

lemma oids_allocated_delete:
  assumes "oids_allocated e" "windows e' = Map_delete k (windows e)" "nextOid e' = nextOid e"
  shows "oids_allocated e'"
  using assms Map_delete_subset [of k "windows e"]
  by (auto simp add: oids_allocated_def list_all_iff)

lemma removeWindow_windows:
  "windows (snd (removeWindow w e)) = windows e
   \<or> windows (snd (removeWindow w e)) = Map_delete (id_w w) (windows e)
   \<or> windows (snd (removeWindow w e))
        = updateZIndices_loop (zIndexBase e) 0 (Map_delete (id_w w) (windows e))"
  by (simp add: removeWindow_def Let_def saveState_fields updateZIndices_fields
      split: option.splits icon_entry.splits)

lemma removeWindow_nextOid: "nextOid (snd (removeWindow w e)) = nextOid e"
  by (simp add: removeWindow_def Let_def saveState_fields updateZIndices_fields
      split: option.splits icon_entry.splits)

lemma removeWindow_zIndexBase: "zIndexBase (snd (removeWindow w e)) = zIndexBase e"
  by (simp add: removeWindow_def Let_def saveState_fields updateZIndices_fields
      split: option.splits icon_entry.splits)

lemma removeWindow_inv:
  assumes ok: "windows_ok e" and al: "oids_allocated e"
  shows "windows_ok (snd (removeWindow w e)) \<and> oids_allocated (snd (removeWindow w e))"
proof -
  let ?d = "e\<lparr> windows := Map_delete (id_w w) (windows e) \<rparr>"
  have okd: "windows_ok ?d" by (rule windows_ok_delete [OF ok]) simp
  have ald: "oids_allocated ?d" by (rule oids_allocated_delete [OF al]) simp_all
  have oku: "windows_ok (updateZIndices ?d)" using okd by (simp add: windows_ok_updateZIndices)
  have alu: "oids_allocated (updateZIndices ?d)" using ald by (simp add: oids_allocated_updateZIndices)
  from removeWindow_windows [of w e]
  consider "windows (snd (removeWindow w e)) = windows e"
    | "windows (snd (removeWindow w e)) = windows ?d"
    | "windows (snd (removeWindow w e)) = windows (updateZIndices ?d)"
    by (auto simp add: updateZIndices_fields)
  then show ?thesis
  proof cases
    case 1
    then show ?thesis using ok al
      by (simp add: windows_ok_def oids_allocated_def removeWindow_nextOid)
  next
    case 2
    then show ?thesis using okd ald
      by (simp add: windows_ok_def oids_allocated_def removeWindow_nextOid)
  next
    case 3
    then show ?thesis using oku alu
      by (simp add: windows_ok_def oids_allocated_def removeWindow_nextOid updateZIndices_fields)
  qed
qed

lemma newWindow_inv:
  assumes ok: "windows_ok e" and al: "oids_allocated e"
  shows "windows_ok (snd (newWindow vp rx ry uuid WindowClass config e))
       \<and> oids_allocated (snd (newWindow vp rx ry uuid WindowClass config e))"
proof -
  obtain r e1 where c: "createWindow vp rx ry uuid WindowClass config e = (r, e1)"
    by (cases "createWindow vp rx ry uuid WindowClass config e") auto
  from createWindow_inv [OF ok al, of vp rx ry uuid WindowClass config]
  have i1: "windows_ok e1" "oids_allocated e1" by (simp_all add: c)
  show ?thesis
  proof (cases r)
    case (Threw err)
    then show ?thesis using i1 c by (simp add: newWindow_def)
  next
    case (Returned window)
    from pinWindow_inv [OF i1, of window]
    have i2: "windows_ok (pinWindow window e1)" "oids_allocated (pinWindow window e1)" by simp_all
    from bringToFront_inv [OF i2, of window]
    have i3: "windows_ok (bringToFront window (pinWindow window e1))"
      "oids_allocated (bringToFront window (pinWindow window e1))" by simp_all
    have "snd (newWindow vp rx ry uuid WindowClass config e)
            = saveState (updateZIndices (bringToFront window (pinWindow window e1)))"
      using c Returned by (simp add: newWindow_def Let_def)
    then show ?thesis using i3
      by (simp add: windows_ok_saveState windows_ok_updateZIndices
          oids_allocated_saveState oids_allocated_updateZIndices)
  qed
qed

lemma Environment_new_inv:
  "windows_ok (Environment_new chatName popupName emojiName stored)
   \<and> oids_allocated (Environment_new chatName popupName emojiName stored)"
  by (simp add: Environment_new_def windows_ok_def oids_allocated_def)

lemma reachable_inv: "reachable e \<Longrightarrow> windows_ok e \<and> oids_allocated e"
proof (induction rule: reachable.induct)
  case (start chatName popupName emojiName stored)
  show ?case by (rule Environment_new_inv)
next
  case (create e vp rx ry ident WindowClass config)
  then show ?case using createWindow_inv by blast
next
  case (new e vp rx ry uuid WindowClass config)
  then show ?case using newWindow_inv by blast
next
  case (remove e window)
  then show ?case using removeWindow_inv by blast
next
  case (front e window)
  then show ?case using bringToFront_inv by blast
qed

lemma reachable_windows_ok: "reachable e \<Longrightarrow> windows_ok e"
  using reachable_inv by blast

lemma zIndices_contiguous_cong:
  "windows e' = windows e \<Longrightarrow> zIndexBase e' = zIndexBase e \<Longrightarrow>
   zIndices_contiguous e' = zIndices_contiguous e"
  by (simp add: zIndices_contiguous_def)

lemma zIndices_contiguous_renumbered: "zIndices_contiguous (saveState (updateZIndices e))"
  by (simp add: zIndices_contiguous_saveState zIndices_contiguous_updateZIndices)

lemma createWindow_contiguous:
  assumes z: "zIndices_contiguous e"
  shows "zIndices_contiguous (snd (createWindow vp rx ry ident WindowClass config e))"
proof (cases "Map_get ident (windows e)")
  case (Some existing)
  then show ?thesis using z by (simp add: createWindow_def zIndices_contiguous_def)
next
  case None
  obtain cls config' e1 where r: "resolveClass WindowClass config e = (cls, config', e1)"
    by (cases "resolveClass WindowClass config e") auto
  note f = resolveClass_fields [OF r]
  have z1: "zIndices_contiguous e1"
    using z zIndices_contiguous_cong [of e1 e] f by simp
  show ?thesis
  proof (cases "read_config config'")
    case None': None
    then show ?thesis using None r z1 by (simp add: createWindow_def)
  next
    case (Some c)
    show ?thesis
    proof (cases "Window_new vp rx ry (nextOid e1) (name_c cls) ident c")
      case (Inl err)
      then show ?thesis using None r Some z1 by (simp add: createWindow_def)
    next
      case (Inr newWindow)
      then show ?thesis using None r Some
        by (simp add: createWindow_def Let_def zIndices_contiguous_renumbered)
    qed
  qed
qed

lemma newWindow_contiguous:
  assumes z: "zIndices_contiguous e"
  shows "zIndices_contiguous (snd (newWindow vp rx ry uuid WindowClass config e))"
proof -
  obtain r e1 where c: "createWindow vp rx ry uuid WindowClass config e = (r, e1)"
    by (cases "createWindow vp rx ry uuid WindowClass config e") auto
  from createWindow_contiguous [OF z, of vp rx ry uuid WindowClass config]
  have z1: "zIndices_contiguous e1" by (simp add: c)
  show ?thesis
  proof (cases r)
    case (Threw err)
    then show ?thesis using z1 c by (simp add: newWindow_def)
  next
    case (Returned window)
    then show ?thesis using c
      by (simp add: newWindow_def Let_def zIndices_contiguous_renumbered)
  qed
qed

lemma bringToFront_contiguous:
  "zIndices_contiguous e \<Longrightarrow> zIndices_contiguous (bringToFront w e)"
  by (simp add: bringToFront_def Let_def zIndices_contiguous_renumbered split: option.splits)

lemma removeWindow_contiguous:
  assumes z: "zIndices_contiguous e" and r: "fst (removeWindow w e) = Returned ()"
  shows "zIndices_contiguous (snd (removeWindow w e))"
proof (cases "Map_has (id_w w) (windows e)")
  case False
  then have "snd (removeWindow w e) = e\<lparr> console := console e @ [''Removing window: '' @ id_w w] \<rparr>"
    by (simp add: removeWindow_def Let_def)
  then show ?thesis using z by (simp add: zIndices_contiguous_def)
next
  case True
  then show ?thesis using r
    by (simp add: removeWindow_def Let_def zIndices_contiguous_renumbered
        split: option.splits icon_entry.splits if_splits)
qed

lemma zIndices_contiguous_without_throw:
  "reachable_without_throw e \<Longrightarrow> zIndices_contiguous e"
proof (induction rule: reachable_without_throw.induct)
  case (start chatName popupName emojiName stored)
  show ?case by (simp add: zIndices_contiguous_def Environment_new_def)
next
  case (create e vp rx ry ident WindowClass config)
  then show ?case using createWindow_contiguous by blast
next
  case (new e vp rx ry uuid WindowClass config)
  then show ?case using newWindow_contiguous by blast
next
  case (remove e window)
  then show ?case using removeWindow_contiguous by blast
next
  case (front e window)
  then show ?case using bringToFront_contiguous by blast
qed

lemma envAB_reachable: "reachable envAB"
  unfolding envAB_def envA_def emptyEnv_def
  by (intro reachable.create reachable.start)

lemma broken_reachable: "reachable (snd (removeWindow windowA envAB))"
  by (rule reachable.remove [OF envAB_reachable])

text \<open>
  Claim C4 says that after any sequence of \<open>createWindow\<close>, \<open>newWindow\<close>,
  \<open>removeWindow\<close> and \<open>bringToFront\<close> the z-indices of the collection are
  \<open>zIndexBase\<close>, \<open>zIndexBase + 1\<close>, and so on, in its order. That holds as long
  as no call of \<open>removeWindow\<close> has thrown (\<open>zIndices_contiguous_without_throw\<close>),
  but \<open>removeWindow\<close> throws before \<open>updateZIndices\<close> for a window that has no
  taskbar item: \<open>createWindow\<close> pins nothing, \<open>icons.get(window.id)\<close> is
  \<open>undefined\<close>, and \<open>removeChild\<close> throws after the window has been deleted from the
  collection. After \<open>createWindow\<close> of A, \<open>createWindow\<close> of B and \<open>removeWindow\<close>
  of A, the collection holds B alone with z-index 1001, where \<open>zIndexBase\<close> is 1000.
\<close>

theorem removeWindow_unpinned_breaks_zIndices:
  "createWindow exampleViewport (1/2) (1/2) ''A'' Window_class configA emptyEnv
     = (Returned windowA, envA)
   \<and> createWindow exampleViewport (1/2) (1/2) ''B'' Window_class configB envA
     = (Returned windowB, envAB)
   \<and> zIndices_contiguous envAB
   \<and> fst (removeWindow windowA envAB)
       = Threw (TypeError ''removeChild: parameter 1 is not of type Node'')
   \<and> reachable (snd (removeWindow windowA envAB))
   \<and> map (\<lambda>p. (fst p, zIndex (snd p))) (windows (snd (removeWindow windowA envAB)))
       = [(''B'', 1001)]
   \<and> zIndexBase (snd (removeWindow windowA envAB)) = 1000
   \<and> \<not> zIndices_contiguous (snd (removeWindow windowA envAB))"
proof -
  have r: "removeWindow windowA envAB
             = (Threw (TypeError ''removeChild: parameter 1 is not of type Node''),
                envAB\<lparr> console := console envAB @ [''Removing window: A''],
                       windows := [(''B'', windowB)], elements := [1] \<rparr>)"
    by (simp add: removeWindow_def Let_def Map_has_def Map_get_def Map_delete_def
        envAB_fields windowAB_fields emptyEnv_fields)
  have 1: "zIndices_contiguous envAB"
    by (simp add: zIndices_contiguous_def envAB_fields windowAB_fields)
  have 2: "fst (removeWindow windowA envAB)
             = Threw (TypeError ''removeChild: parameter 1 is not of type Node'')"
    by (simp add: r)
  have 3: "map (\<lambda>p. (fst p, zIndex (snd p))) (windows (snd (removeWindow windowA envAB)))
             = [(''B'', 1001)]"
    by (simp add: r windowAB_fields)
  have 4: "zIndexBase (snd (removeWindow windowA envAB)) = 1000"
    by (simp add: r envAB_fields)
  have 5: "\<not> zIndices_contiguous (snd (removeWindow windowA envAB))"
    by (simp add: r zIndices_contiguous_def envAB_fields windowAB_fields)
  from createWindow_A createWindow_B 1 2 broken_reachable 3 4 5 show ?thesis by blast
qed

subsection \<open>Remote content\<close>

lemma fetch_try_catch_restores:
  assumes "fetch url = FetchRejected msg \<or> fetch url = FetchResponse False status data"
  shows "fetch_try_catch fetch parse origin url (title w) (content w) (w\<lparr> title := ''Loading...'' \<rparr>)
           = (Returned (), w, [''Failed to fetch window contents:''])"
  using assms by (auto simp add: fetch_try_catch_def fetch_try_def)

lemma fetch_try_catch_title_content:
  "fetch_try_catch fetch parse origin url (title w) (content w) (w\<lparr> title := ''Loading...'' \<rparr>)
     = (Returned (), w', out) \<Longrightarrow> out \<noteq> [] \<Longrightarrow> w' = w"
  by (auto simp add: fetch_try_catch_def fetch_try_def Let_def
      split: fetch_result.splits if_splits option.splits)

text \<open>
  Claim C8 says that when the load fails, \<open>fetchWindowContents\<close> restores the title and
  the content, logs the error and throws nothing. The \<open>try\<close> statement does that
  (\<open>fetch_try_catch_restores\<close>), but the function never reaches it: before the \<open>try\<close>
  it sets the title to \<open>Loading...\<close> and calls \<open>HTMLImageElement()\<close> as a function,
  which throws. So for every window and every URL the call ends with a TypeError and the
  title \<open>Loading...\<close>.
\<close>

theorem fetchWindowContents_throws:
  "fetchWindowContents fetch parse origin url w
     = (Threw (TypeError ''Illegal constructor''), w\<lparr> title := ''Loading...'' \<rparr>, [])
   \<and> fst (fetchWindowContents (\<lambda>u. FetchRejected ''Failed to fetch'') parse origin ''/welcome'' exampleWindow)
       = Threw (TypeError ''Illegal constructor'')
   \<and> title exampleWindow = ''A''
   \<and> title (fst (snd (fetchWindowContents (\<lambda>u. FetchRejected ''Failed to fetch'') parse origin
                         ''/welcome'' exampleWindow))) = ''Loading...''"
  by (simp add: fetchWindowContents_def HTMLImageElement_call_def Let_def exampleWindow_def)

subsection \<open>The saved snapshot\<close>














end
